theory Spec2Isabelle
  imports Main
begin

section \<open>The drastic module: values, types and the global state\<close>

text \<open>
  The module \<^verbatim>\<open>drastic/drastic.py\<close> offers two decorators, \<^verbatim>\<open>strict\<close> (run-time
  checking of argument and return types against the annotations of a function) and
  \<^verbatim>\<open>init\<close> (automatic assignment of constructor arguments to fields, with keyword
  driven installation of special methods on the class), and the pair
  \<^verbatim>\<open>enable\<close>/\<^verbatim>\<open>disable\<close> acting on the module variable \<^verbatim>\<open>_enabled\<close>.

  Python values are modelled by a small universe: \<^verbatim>\<open>None\<close>, booleans, integers,
  strings (ASCII), lists, and instances of user-defined classes. An instance carries the
  identity of its class and its own address; its attributes live in the heap of the
  global state. Classes are ordinary classes (no \<^verbatim>\<open>__slots__\<close>, no custom
  \<^verbatim>\<open>__setattr__\<close>, deriving from \<^verbatim>\<open>object\<close> or from other user classes); values of
  built-in types accept no new attribute, and built-in types accept no attribute
  assignment, as in CPython.
\<close>

type_synonym cid = nat
type_synonym ref = nat

datatype pytype = NoneType | BoolT | IntT | StrT | ListT | ObjectT | ClassT cid

datatype pyval =
    VNone
  | VBool bool
  | VInt int
  | VStr string
  | VList "pyval list"
  | VObj cid ref

text \<open>
  What a class dictionary holds: one of the module-level functions \<^verbatim>\<open>_bool\<close>,
  \<^verbatim>\<open>_int\<close>, ... (identified by its name) or a plain value.
\<close>

datatype cattr = Method string | Attr pyval

record pyclass =
  cname :: string
  cbases :: "cid list"
  cdict :: "string \<rightharpoonup> cattr"

text \<open>
  \<open>cbases\<close> lists the proper user-defined ancestors of the class in method resolution
  order (\<^verbatim>\<open>object\<close>, always last, is left out).
\<close>

record world =
  enabled :: bool
  classes :: "cid \<Rightarrow> pyclass"
  heap :: "ref \<Rightarrow> (string \<rightharpoonup> pyval)"

text \<open>Annotations: a single object or a tuple of objects; an object is a type, a string,
  or anything else (for instance \<^verbatim>\<open>None\<close>).\<close>

datatype annot_elem = AType pytype | AStr string | AOther

datatype annotation = AOne annot_elem | ATuple "annot_elem list"

text \<open>
  Exceptions. The two type errors carry what their message is formatted from: the name of
  the function, the name of the argument, the expected types (only the types of the
  \<^verbatim>\<open>expected\<close> tuple are printed) and the received type. \<^verbatim>\<open>AnnotationError\<close> carries
  which of the two messages it is and the set of keywords the message lists (the order of
  the listing is the iteration order of a Python set).
\<close>

datatype annotation_msg =
    LocalIncompatible "string set"
  | UsedOnce "string set"

datatype exn =
    ArgumentTypeError string string "pytype list" pytype
  | ReturnTypeError string "pytype list" pytype
  | AnnotationError annotation_msg
  | IndexError
  | TypeError
  | AttributeError
  | OtherError string

type_synonym kwargs = "(string \<times> pyval) list"
type_synonym outcome = "(exn + pyval) \<times> world"
type_synonym callable = "world \<Rightarrow> pyval list \<Rightarrow> kwargs \<Rightarrow> outcome"

text \<open>
  A function as the decorators see it: its \<^verbatim>\<open>__name__\<close>, the fields \<^verbatim>\<open>args\<close>,
  \<^verbatim>\<open>defaults\<close> and \<^verbatim>\<open>annotations\<close> of \<^verbatim>\<open>inspect.getfullargspec\<close>, and the effect of
  calling it: from the state, the positional and the keyword arguments to a result or an
  exception, and the new state.
\<close>

record pyfunc =
  f_name :: string
  f_args :: "string list"
  f_defaults :: "pyval list option"
  f_annotations :: "string \<rightharpoonup> annotation"
  f_call :: callable

subsection \<open>Disable/Enable\<close>

definition disable :: "world \<Rightarrow> world" where
  "disable w = w\<lparr>enabled := False\<rparr>"

definition enable :: "world \<Rightarrow> world" where
  "enable w = w\<lparr>enabled := True\<rparr>"

subsection \<open>Types of values, subclassing\<close>

fun type_of :: "pyval \<Rightarrow> pytype" where
  "type_of VNone = NoneType"
| "type_of (VBool b) = BoolT"
| "type_of (VInt i) = IntT"
| "type_of (VStr s) = StrT"
| "type_of (VList xs) = ListT"
| "type_of (VObj c r) = ClassT c"

fun type_name :: "world \<Rightarrow> pytype \<Rightarrow> string" where
  "type_name w NoneType = ''NoneType''"
| "type_name w BoolT = ''bool''"
| "type_name w IntT = ''int''"
| "type_name w StrT = ''str''"
| "type_name w ListT = ''list''"
| "type_name w ObjectT = ''object''"
| "type_name w (ClassT c) = cname (classes w c)"

fun mro :: "world \<Rightarrow> pytype \<Rightarrow> pytype list" where
  "mro w ObjectT = [ObjectT]"
| "mro w BoolT = [BoolT, IntT, ObjectT]"
| "mro w (ClassT c) = ClassT c # map ClassT (cbases (classes w c)) @ [ObjectT]"
| "mro w t = [t, ObjectT]"

definition issubclass :: "world \<Rightarrow> pytype \<Rightarrow> pytype \<Rightarrow> bool" where
  "issubclass w t u = (u \<in> set (mro w t))"

definition isinstance :: "world \<Rightarrow> pyval \<Rightarrow> pytype list \<Rightarrow> bool" where
  "isinstance w v ts = list_ex (issubclass w (type_of v)) ts"

subsection \<open>Utils\<close>

definition types_of :: "annot_elem list \<Rightarrow> pytype list" where
  "types_of expected = concat (map (\<lambda>e. case e of AType t \<Rightarrow> [t] | _ \<Rightarrow> []) expected)"

definition type_ok :: "world \<Rightarrow> pyval \<Rightarrow> annot_elem list \<Rightarrow> bool" where
  "type_ok w v expected =
     (let types = types_of expected;
          nullable = (AStr ''nonable'' \<in> set expected)
      in isinstance w v types \<or> (nullable \<and> v = VNone))"

fun to_tuple :: "annotation \<Rightarrow> annot_elem list" where
  "to_tuple (ATuple es) = es"
| "to_tuple (AOne e) = [e]"

subsection \<open>The strict decorator\<close>

fun check_pairs :: "pyfunc \<Rightarrow> world \<Rightarrow> (string \<times> pyval) list \<Rightarrow> exn + unit" where
  "check_pairs func w [] = Inr ()"
| "check_pairs func w ((name, v) # rest) =
     (case f_annotations func name of
        None \<Rightarrow> check_pairs func w rest
      | Some ann \<Rightarrow>
          (let expected = to_tuple ann
           in if \<not> type_ok w v expected
              then Inl (ArgumentTypeError (f_name func) name (types_of expected) (type_of v))
              else check_pairs func w rest))"

definition check_arguments :: "pyfunc \<Rightarrow> world \<Rightarrow> pyval list \<Rightarrow> exn + unit" where
  "check_arguments func w args =
     (if args \<noteq> [] \<and> f_args func \<noteq> [''self'']
      then (case f_args func of
              [] \<Rightarrow> Inl IndexError
            | a0 # _ \<Rightarrow>
                (let i = (if a0 = ''self'' then 1 else 0)
                 in check_pairs func w (zip (drop i (f_args func)) (drop i args))))
      else Inr ())"

definition check_return :: "pyfunc \<Rightarrow> outcome \<Rightarrow> outcome" where
  "check_return func out =
     (case out of
        (Inl e, w') \<Rightarrow> (Inl e, w')
      | (Inr result, w') \<Rightarrow>
          (case f_annotations func ''return'' of
             None \<Rightarrow> (Inr result, w')
           | Some ann \<Rightarrow>
               (let expected = to_tuple ann
                in if \<not> type_ok w' result expected
                   then (Inl (ReturnTypeError (f_name func) (types_of expected) (type_of result)), w')
                   else (Inr result, w'))))"

definition checked_call :: "pyfunc \<Rightarrow> callable" where
  "checked_call func w args kwargs =
     (case check_arguments func w args of
        Inl e \<Rightarrow> (Inl e, w)
      | Inr _ \<Rightarrow> check_return func (f_call func w args kwargs))"

definition strict :: "pyfunc \<Rightarrow> callable" where
  "strict func w args kwargs =
     (if \<not> enabled w then f_call func w args kwargs
      else checked_call func w args kwargs)"

subsection \<open>The init decorator: keywords, arguments, the wrapped object\<close>

definition all_keywords :: "string list" where
  "all_keywords = [''nonable'', ''local'', ''private'', ''boolean'', ''number'', ''string'',
     ''container'', ''compare'']"

definition local_incompatible :: "string list" where
  "local_incompatible = [''private'', ''boolean'', ''number'', ''string'', ''container'',
     ''compare'']"

definition uniques :: "string list" where
  "uniques = [''boolean'', ''number'', ''container'', ''compare'']"

text \<open>
  \<^verbatim>\<open>str.split()\<close> without argument: the maximal runs of non-whitespace characters. The
  whitespace characters of the ASCII range are the codes 9 to 13, 28 to 31 and 32.
\<close>

definition is_space :: "char \<Rightarrow> bool" where
  "is_space c = (c \<in> set [CHR 0x09, CHR 0x0A, CHR 0x0B, CHR 0x0C, CHR 0x0D,
                          CHR 0x1C, CHR 0x1D, CHR 0x1E, CHR 0x1F, CHR 0x20])"

fun split_from :: "string \<Rightarrow> string \<Rightarrow> string list" where
  "split_from cur [] = (if cur = [] then [] else [cur])"
| "split_from cur (c # cs) =
     (if is_space c
      then (if cur = [] then split_from [] cs else cur # split_from [] cs)
      else split_from (cur @ [c]) cs)"

definition str_split :: "string \<Rightarrow> string list" where
  "str_split s = split_from [] s"

record argument =
  arg_name :: string
  arg_value :: pyval
  arg_types :: "pytype list"
  arg_keywords :: "string set"

record object =
  obj :: pyval
  obj_type :: pytype
  obj_name :: string
  obj_keywords :: "string set"

text \<open>The loop of \<^verbatim>\<open>Argument.__init__\<close> over the annotations: a type is appended to
  \<^verbatim>\<open>self.types\<close>, a string replaces \<^verbatim>\<open>self.keywords\<close> by the set of its words,
  anything else is skipped.\<close>

fun parse_annotations ::
  "annot_elem list \<Rightarrow> pytype list \<times> string set \<Rightarrow> pytype list \<times> string set" where
  "parse_annotations [] acc = acc"
| "parse_annotations (AType t # es) (ts, ks) = parse_annotations es (ts @ [t], ks)"
| "parse_annotations (AStr s # es) (ts, ks) = parse_annotations es (ts, set (str_split s))"
| "parse_annotations (AOther # es) acc = parse_annotations es acc"

definition parse_types :: "annotation \<Rightarrow> pytype list" where
  "parse_types ann = fst (parse_annotations (to_tuple ann) ([], {}))"

definition parse_keywords :: "annotation \<Rightarrow> string set" where
  "parse_keywords ann = snd (parse_annotations (to_tuple ann) ([], {}))"

definition check_type :: "world \<Rightarrow> argument \<Rightarrow> exn + unit" where
  "check_type w a =
     (if arg_types a \<noteq> []
      then (let nullable = (arg_value a = VNone \<and> ''nonable'' \<in> arg_keywords a)
            in if \<not> (nullable \<or> isinstance w (arg_value a) (arg_types a))
               then Inl (ArgumentTypeError ''__init__'' (arg_name a) (arg_types a)
                          (type_of (arg_value a)))
               else Inr ())
      else Inr ())"

definition Argument :: "world \<Rightarrow> string \<Rightarrow> pyval \<Rightarrow> annotation \<Rightarrow> exn + argument" where
  "Argument w name v annotations =
     (let a = \<lparr>arg_name = name, arg_value = v,
               arg_types = parse_types annotations,
               arg_keywords = parse_keywords annotations\<rparr>
      in case check_type w a of Inl e \<Rightarrow> Inl e | Inr _ \<Rightarrow> Inr a)"

definition Object :: "world \<Rightarrow> pyval \<Rightarrow> object" where
  "Object w v = \<lparr>obj = v, obj_type = type_of v, obj_name = type_name w (type_of v),
                 obj_keywords = {}\<rparr>"

text \<open>
  \<^verbatim>\<open>check_consistency\<close> returns the exception raised, if any, and the wrapper, whose
  \<^verbatim>\<open>keywords\<close> are updated by the last statement only.
\<close>

definition check_consistency :: "object \<Rightarrow> argument \<Rightarrow> exn option \<times> object" where
  "check_consistency self a =
     (let incompatibles = {k \<in> arg_keywords a. k \<in> set local_incompatible}
      in if ''local'' \<in> arg_keywords a \<and> incompatibles \<noteq> {}
         then (Some (AnnotationError (LocalIncompatible incompatibles)), self)
         else (let uniqs = arg_keywords a \<inter> set uniques;
                   error_keywords = uniqs \<inter> obj_keywords self
               in if error_keywords \<noteq> {}
                  then (Some (AnnotationError (UsedOnce error_keywords)), self)
                  else (None, self\<lparr>obj_keywords := obj_keywords self \<union> arg_keywords a\<rparr>)))"

subsection \<open>Attributes of types and of instances\<close>

text \<open>
  Attribute lookup on a type walks the method resolution order; the attributes the module
  looks up (\<^verbatim>\<open>_initialized\<close>, \<^verbatim>\<open>_varstr\<close>) exist on no built-in type. Assignment to an
  attribute of a built-in type raises \<^verbatim>\<open>TypeError\<close>; assignment to an attribute of a
  value of a built-in type raises \<^verbatim>\<open>AttributeError\<close>.
\<close>

fun lookup_mro :: "world \<Rightarrow> cid list \<Rightarrow> string \<Rightarrow> (cid \<times> cattr) option" where
  "lookup_mro w [] k = None"
| "lookup_mro w (c # cs) k =
     (case cdict (classes w c) k of
        Some x \<Rightarrow> Some (c, x)
      | None \<Rightarrow> lookup_mro w cs k)"

definition getattr_type :: "world \<Rightarrow> pytype \<Rightarrow> string \<Rightarrow> (cid \<times> cattr) option" where
  "getattr_type w t k =
     (case t of ClassT c \<Rightarrow> lookup_mro w (c # cbases (classes w c)) k | _ \<Rightarrow> None)"

definition hasattr_type :: "world \<Rightarrow> pytype \<Rightarrow> string \<Rightarrow> bool" where
  "hasattr_type w t k = (getattr_type w t k \<noteq> None)"

definition class_update :: "world \<Rightarrow> cid \<Rightarrow> string \<Rightarrow> cattr \<Rightarrow> world" where
  "class_update w c k x =
     w\<lparr>classes := (classes w)(c := (classes w c)\<lparr>cdict := (cdict (classes w c))(k \<mapsto> x)\<rparr>)\<rparr>"

definition set_type_attr :: "pytype \<Rightarrow> string \<Rightarrow> cattr \<Rightarrow> world \<Rightarrow> exn option \<times> world" where
  "set_type_attr t k x w =
     (case t of ClassT c \<Rightarrow> (None, class_update w c k x) | _ \<Rightarrow> (Some TypeError, w))"

definition setattr_obj :: "pyval \<Rightarrow> string \<Rightarrow> pyval \<Rightarrow> world \<Rightarrow> exn option \<times> world" where
  "setattr_obj v k x w =
     (case v of
        VObj c r \<Rightarrow> (None, w\<lparr>heap := (heap w)(r := (heap w r)(k \<mapsto> x))\<rparr>)
      | _ \<Rightarrow> (Some AttributeError, w))"

text \<open>Sequencing of statements: a raised exception skips what follows and keeps the state
  reached.\<close>

definition and_then ::
  "exn option \<times> world \<Rightarrow> (world \<Rightarrow> exn option \<times> world) \<Rightarrow> exn option \<times> world" where
  "and_then r f = (case r of (None, w) \<Rightarrow> f w | (Some e, w) \<Rightarrow> (Some e, w))"

definition when_do ::
  "bool \<Rightarrow> (world \<Rightarrow> exn option \<times> world) \<Rightarrow> world \<Rightarrow> exn option \<times> world" where
  "when_do b f w = (if b then f w else (None, w))"

fun set_type_attrs :: "pytype \<Rightarrow> (string \<times> cattr) list \<Rightarrow> world \<Rightarrow> exn option \<times> world" where
  "set_type_attrs t [] w = (None, w)"
| "set_type_attrs t ((k, x) # rest) w = and_then (set_type_attr t k x w) (set_type_attrs t rest)"

subsection \<open>Installation of the special methods\<close>

definition set_private :: "object \<Rightarrow> argument \<Rightarrow> argument" where
  "set_private self a = a\<lparr>arg_name := ''_'' @ obj_name self @ ''__'' @ arg_name a\<rparr>"

definition add_tobool :: "object \<Rightarrow> argument \<Rightarrow> world \<Rightarrow> exn option \<times> world" where
  "add_tobool self a =
     set_type_attrs (obj_type self)
       [(''__bool__'', Method ''_bool''),
        (''_varbool'', Attr (VStr (arg_name a)))]"

definition add_tonumber :: "object \<Rightarrow> argument \<Rightarrow> world \<Rightarrow> exn option \<times> world" where
  "add_tonumber self a =
     set_type_attrs (obj_type self)
       [(''__int__'', Method ''_int''),
        (''__float__'', Method ''_float''),
        (''_varnumber'', Attr (VStr (arg_name a)))]"

text \<open>
  \<^verbatim>\<open>register_tostring\<close>: the list \<^verbatim>\<open>_varstr\<close> is created on the type itself when no
  class of the resolution order has one; otherwise the list found is appended to in
  place, in the dictionary of the class that holds it.
\<close>

definition register_tostring :: "object \<Rightarrow> argument \<Rightarrow> world \<Rightarrow> exn option \<times> world" where
  "register_tostring self a w =
     (if \<not> hasattr_type w (obj_type self) ''_varstr''
      then set_type_attr (obj_type self) ''_varstr'' (Attr (VList [VStr (arg_name a)])) w
      else (case getattr_type w (obj_type self) ''_varstr'' of
              Some (d, Attr (VList xs)) \<Rightarrow>
                (None, class_update w d ''_varstr'' (Attr (VList (xs @ [VStr (arg_name a)]))))
            | _ \<Rightarrow> (Some AttributeError, w)))"

definition add_container_methods :: "object \<Rightarrow> argument \<Rightarrow> world \<Rightarrow> exn option \<times> world" where
  "add_container_methods self a =
     set_type_attrs (obj_type self)
       [(''__getitem__'', Method ''_getitem''),
        (''__setitem__'', Method ''_setitem''),
        (''__delitem__'', Method ''_delitem''),
        (''__iter__'', Method ''_iter''),
        (''__reversed__'', Method ''_reversed''),
        (''__contains__'', Method ''_contains''),
        (''_varitems'', Attr (VStr (arg_name a)))]"

definition add_comparison_methods :: "object \<Rightarrow> argument \<Rightarrow> world \<Rightarrow> exn option \<times> world" where
  "add_comparison_methods self a =
     set_type_attrs (obj_type self)
       [(''__eq__'', Method ''_eq''),
        (''__ne__'', Method ''_ne''),
        (''__lt__'', Method ''_lt''),
        (''__le__'', Method ''_le''),
        (''_varcmp'', Attr (VStr (arg_name a)))]"

definition add_tostring :: "object \<Rightarrow> world \<Rightarrow> exn option \<times> world" where
  "add_tostring self w =
     (if hasattr_type w (obj_type self) ''_varstr''
      then set_type_attr (obj_type self) ''__str__'' (Method ''_str'') w
      else (None, w))"

text \<open>
  The block of \<^verbatim>\<open>add_argument\<close> guarded by
  \<^verbatim>\<open>if not hasattr(self.type, '_initialized')\<close>: the six keyword tests in the order of
  the source. \<^verbatim>\<open>set_private\<close> renames the argument, and the later tests record the new
  name.
\<close>

fun run_all :: "(world \<Rightarrow> exn option \<times> world) list \<Rightarrow> world \<Rightarrow> exn option \<times> world" where
  "run_all [] w = (None, w)"
| "run_all (f # fs) w = and_then (f w) (run_all fs)"

definition install :: "object \<Rightarrow> argument \<Rightarrow> world \<Rightarrow> (exn option \<times> world) \<times> argument" where
  "install self a w =
     (let a1 = (if ''private'' \<in> arg_keywords a then set_private self a else a)
      in (run_all
            [when_do (''boolean'' \<in> arg_keywords a1) (add_tobool self a1),
             when_do (''number'' \<in> arg_keywords a1) (add_tonumber self a1),
             when_do (''string'' \<in> arg_keywords a1) (register_tostring self a1),
             when_do (''container'' \<in> arg_keywords a1) (add_container_methods self a1),
             when_do (''compare'' \<in> arg_keywords a1) (add_comparison_methods self a1)] w,
          a1))"

definition add_argument ::
  "object \<Rightarrow> argument \<Rightarrow> world \<Rightarrow> (exn option \<times> world) \<times> object" where
  "add_argument self a w =
     (case check_consistency self a of
        (Some e, self') \<Rightarrow> ((Some e, w), self')
      | (None, self') \<Rightarrow>
          (let (r, a') = (if \<not> hasattr_type w (obj_type self') ''_initialized''
                          then install self' a w
                          else ((None, w), a))
           in (and_then r (setattr_obj (obj self') (arg_name a') (arg_value a')), self')))"

definition finalize :: "object \<Rightarrow> world \<Rightarrow> exn option \<times> world" where
  "finalize self w =
     and_then (add_tostring self w)
       (set_type_attr (obj_type self) ''_initialized'' (Attr (VBool True)))"

subsection \<open>The wrapper returned by init\<close>

text \<open>
  \<^verbatim>\<open>arguments = list(args)\<close>, extended by the slice
  \<^verbatim>\<open>spec.defaults[len(arguments) - len(spec.args):]\<close> when shorter than \<^verbatim>\<open>spec.args\<close>.
  The start of the slice is negative, \<open>- k\<close> with \<open>k\<close> the number of missing arguments:
  the last \<open>k\<close> defaults, or all of them when there are fewer (the truncating subtraction
  of \<open>nat\<close> is the clamping of the slice). \<^verbatim>\<open>spec.defaults\<close> is \<^verbatim>\<open>None\<close> for a function
  without defaults, and subscripting it raises \<^verbatim>\<open>TypeError\<close>.
\<close>

definition arguments_of :: "pyfunc \<Rightarrow> pyval list \<Rightarrow> exn + pyval list" where
  "arguments_of constructor args =
     (if length args < length (f_args constructor)
      then (case f_defaults constructor of
              None \<Rightarrow> Inl TypeError
            | Some ds \<Rightarrow>
                Inr (args @ drop (length ds - (length (f_args constructor) - length args)) ds))
      else Inr args)"

text \<open>\<^verbatim>\<open>defaultdict(lambda: None, spec.annotations)\<close>\<close>

definition annotation_of :: "(string \<rightharpoonup> annotation) \<Rightarrow> string \<Rightarrow> annotation" where
  "annotation_of anns name = (case anns name of None \<Rightarrow> AOne AOther | Some ann \<Rightarrow> ann)"

text \<open>The loop \<^verbatim>\<open>for name, value in zip(spec.args[1:], arguments[1:])\<close>.\<close>

fun add_arguments ::
  "(string \<rightharpoonup> annotation) \<Rightarrow> object \<Rightarrow> (string \<times> pyval) list \<Rightarrow> world \<Rightarrow>
     (exn option \<times> world) \<times> object" where
  "add_arguments anns self [] w = ((None, w), self)"
| "add_arguments anns self ((name, v) # rest) w =
     (case Argument w name v (annotation_of anns name) of
        Inl e \<Rightarrow> ((Some e, w), self)
      | Inr a \<Rightarrow>
          (case add_argument self a w of
             ((Some e, w'), self') \<Rightarrow> ((Some e, w'), self')
           | ((None, w'), self') \<Rightarrow> add_arguments anns self' rest w'))"

text \<open>The body of \<^verbatim>\<open>if _enabled:\<close> in the wrapper.\<close>

definition initialize :: "pyfunc \<Rightarrow> pyval list \<Rightarrow> world \<Rightarrow> exn option \<times> world" where
  "initialize constructor args w =
     (case arguments_of constructor args of
        Inl e \<Rightarrow> (Some e, w)
      | Inr arguments \<Rightarrow>
          (case arguments of
             [] \<Rightarrow> (Some IndexError, w)
           | receiver # rest \<Rightarrow>
               (case add_arguments (f_annotations constructor) (Object w receiver)
                       (zip (tl (f_args constructor)) rest) w of
                  ((Some e, w'), self') \<Rightarrow> (Some e, w')
                | ((None, w'), self') \<Rightarrow> finalize self' w')))"

definition init :: "pyfunc \<Rightarrow> callable" where
  "init constructor w args kwargs =
     (if enabled w
      then (case initialize constructor args w of
              (Some e, w') \<Rightarrow> (Inl e, w')
            | (None, w') \<Rightarrow> f_call constructor w' args kwargs)
      else f_call constructor w args kwargs)"

subsection \<open>Notions used to state the properties\<close>

text \<open>
  The pairs of parameter name and positional argument that the loop of the checker
  visits: the parameters of \<^verbatim>\<open>spec.args\<close> zipped with the positional arguments, both
  without their first element when the first parameter is named \<^verbatim>\<open>self\<close>.
\<close>

definition validated_pairs :: "pyfunc \<Rightarrow> pyval list \<Rightarrow> (string \<times> pyval) list" where
  "validated_pairs func args =
     (case f_args func of
        [] \<Rightarrow> []
      | a0 # _ \<Rightarrow>
          (if a0 = ''self'' then zip (tl (f_args func)) (tl args) else zip (f_args func) args))"

text \<open>
  A declaration without keyword conflict: the keyword sets of the declared fields, in
  order, pass both rules of \<^verbatim>\<open>check_consistency\<close>, starting from no keyword.
\<close>

fun consistent :: "string set \<Rightarrow> string set list \<Rightarrow> bool" where
  "consistent seen [] = True"
| "consistent seen (ks # rest) =
     (\<not> (''local'' \<in> ks \<and> ks \<inter> set local_incompatible \<noteq> {}) \<and>
      ks \<inter> set uniques \<inter> seen = {} \<and>
      consistent (seen \<union> ks) rest)"

definition declared_keywords :: "pyfunc \<Rightarrow> string set list" where
  "declared_keywords constructor =
     map (\<lambda>name. parse_keywords (annotation_of (f_annotations constructor) name))
       (tl (f_args constructor))"

definition well_declared :: "pyfunc \<Rightarrow> bool" where
  "well_declared constructor = consistent {} (declared_keywords constructor)"

text \<open>The keywords that the message of an \<^verbatim>\<open>AnnotationError\<close> lists.\<close>

fun named_keywords :: "annotation_msg \<Rightarrow> string set" where
  "named_keywords (LocalIncompatible ks) = ks"
| "named_keywords (UsedOnce ks) = ks"

text \<open>
  The name under which \<^verbatim>\<open>add_argument\<close> attaches the value of a field to the instance:
  the mangled one when the field is private and the type is not yet initialized, else the
  declared one.
\<close>

definition field_name :: "(string \<rightharpoonup> annotation) \<Rightarrow> bool \<Rightarrow> string \<Rightarrow> string \<Rightarrow> string" where
  "field_name anns initialized tname name =
     (if \<not> initialized \<and> ''private'' \<in> parse_keywords (annotation_of anns name)
      then ''_'' @ tname @ ''__'' @ name
      else name)"

definition attach_name :: "(string \<rightharpoonup> annotation) \<Rightarrow> world \<Rightarrow> pyval \<Rightarrow> string \<Rightarrow> string" where
  "attach_name anns w receiver name =
     field_name anns (hasattr_type w (type_of receiver) ''_initialized'')
       (type_name w (type_of receiver)) name"

text \<open>
  The attributes of an instance after the assignment of one field, given the name under
  which each field is attached; folded over the fields in order, it gives the attributes
  after the assignment of all of them (a later assignment to the same name wins).
\<close>

definition assign_field ::
  "(string \<Rightarrow> string) \<Rightarrow> string \<times> pyval \<Rightarrow> (string \<rightharpoonup> pyval) \<Rightarrow> (string \<rightharpoonup> pyval)" where
  "assign_field attach p m = m(attach (fst p) \<mapsto> snd p)"

text \<open>
  What \<^verbatim>\<open>finalize\<close> leaves in the dictionary of a class: the mark \<^verbatim>\<open>_initialized\<close>,
  and \<^verbatim>\<open>__str__\<close> when a list \<^verbatim>\<open>_varstr\<close> is visible from the class.
\<close>

definition finalized :: "world \<Rightarrow> cid \<Rightarrow> bool" where
  "finalized w c =
     (cdict (classes w c) ''_initialized'' = Some (Attr (VBool True)) \<and>
      (\<not> hasattr_type w (ClassT c) ''_varstr'' \<or>
       cdict (classes w c) ''__str__'' = Some (Method ''_str'')))"

subsection \<open>Example programs\<close>

text \<open>A body that returns a fixed value and leaves the state alone (\<^verbatim>\<open>pass\<close> returns
  \<^verbatim>\<open>None\<close>).\<close>

definition returning :: "pyval \<Rightarrow> callable" where
  "returning r w args kwargs = (Inr r, w)"

definition Foo :: pyclass where
  "Foo = \<lparr>cname = ''Foo'', cbases = [], cdict = Map.empty\<rparr>"

text \<open>The state after \<^verbatim>\<open>class Foo: ...\<close>, before any instance is made.\<close>

definition w0 :: world where
  "w0 = \<lparr>enabled = True, classes = (\<lambda>c. Foo), heap = (\<lambda>r. Map.empty)\<rparr>"

text \<open>\<^verbatim>\<open>def f(n: int) -> str\<close>, with a body returning the given value.\<close>

definition f_int_str :: "pyval \<Rightarrow> pyfunc" where
  "f_int_str r =
     \<lparr>f_name = ''f'', f_args = [''n''], f_defaults = None,
      f_annotations = [''n'' \<mapsto> AOne (AType IntT), ''return'' \<mapsto> AOne (AType StrT)],
      f_call = returning r\<rparr>"

text \<open>\<^verbatim>\<open>def f(n: (int, 'nonable'))\<close>\<close>

definition f_nonable :: pyfunc where
  "f_nonable =
     \<lparr>f_name = ''f'', f_args = [''n''], f_defaults = None,
      f_annotations = [''n'' \<mapsto> ATuple [AType IntT, AStr ''nonable'']],
      f_call = returning (VStr ''done'')\<rparr>"

text \<open>\<^verbatim>\<open>def __init__(self, a: <ann_a>, b: <ann_b>): pass\<close>\<close>

definition Foo_init :: "annotation \<Rightarrow> annotation \<Rightarrow> pyfunc" where
  "Foo_init ann_a ann_b =
     \<lparr>f_name = ''__init__'', f_args = [''self'', ''a'', ''b''], f_defaults = None,
      f_annotations = [''a'' \<mapsto> ann_a, ''b'' \<mapsto> ann_b],
      f_call = returning VNone\<rparr>"

text \<open>\<^verbatim>\<open>def __init__(self, a: (int, 'boolean'), b: 'string'): pass\<close>\<close>

definition Foo_counted :: pyfunc where
  "Foo_counted = Foo_init (ATuple [AType IntT, AStr ''boolean'']) (AOne (AStr ''string''))"

text \<open>\<^verbatim>\<open>def __init__(self, x: 'private'): pass\<close>\<close>

definition Foo_private :: pyfunc where
  "Foo_private =
     \<lparr>f_name = ''__init__'', f_args = [''self'', ''x''], f_defaults = None,
      f_annotations = [''x'' \<mapsto> AOne (AStr ''private'')],
      f_call = returning VNone\<rparr>"

section \<open>Properties\<close>

subsection \<open>Unfolding on concrete programs\<close>

lemma incompatibles_eq: "{k \<in> A. k \<in> B} = A \<inter> B"
  by auto

lemma check_consistency_cases:
  "check_consistency self a =
     (if ''local'' \<in> arg_keywords a \<and> arg_keywords a \<inter> set local_incompatible \<noteq> {}
      then (Some (AnnotationError (LocalIncompatible (arg_keywords a \<inter> set local_incompatible))),
            self)
      else if arg_keywords a \<inter> set uniques \<inter> obj_keywords self \<noteq> {}
      then (Some (AnnotationError (UsedOnce (arg_keywords a \<inter> set uniques \<inter> obj_keywords self))),
            self)
      else (None, self\<lparr>obj_keywords := obj_keywords self \<union> arg_keywords a\<rparr>))"
  by (simp add: check_consistency_def incompatibles_eq Let_def)

lemmas strict_eval =
  strict_def checked_call_def check_arguments_def check_return_def type_ok_def types_of_def
  isinstance_def issubclass_def returning_def f_int_str_def f_nonable_def w0_def
  enable_def disable_def validated_pairs_def Let_def

lemmas init_eval =
  init_def initialize_def arguments_of_def Object_def Argument_def annotation_of_def
  parse_types_def parse_keywords_def str_split_def is_space_def check_type_def
  add_argument_def check_consistency_cases local_incompatible_def uniques_def
  hasattr_type_def getattr_type_def install_def set_private_def add_tobool_def
  add_tonumber_def register_tostring_def add_container_methods_def
  add_comparison_methods_def when_do_def and_then_def set_type_attr_def class_update_def
  setattr_obj_def finalize_def add_tostring_def Foo_def Foo_init_def Foo_private_def
  isinstance_def issubclass_def returning_def w0_def enable_def disable_def
  types_of_def Let_def

subsection \<open>The global toggle\<close>

lemma strict_disabled:
  "\<not> enabled w \<Longrightarrow> strict func w args kwargs = f_call func w args kwargs"
  by (simp add: strict_def)

lemma strict_enabled:
  "enabled w \<Longrightarrow> strict func w args kwargs = checked_call func w args kwargs"
  by (simp add: strict_def)

lemma init_disabled:
  "\<not> enabled w \<Longrightarrow> init constructor w args kwargs = f_call constructor w args kwargs"
  by (simp add: init_def)

lemma init_enabled:
  "enabled w \<Longrightarrow> init constructor w args kwargs =
     (case initialize constructor args w of
        (Some e, w') \<Rightarrow> (Inl e, w')
      | (None, w') \<Rightarrow> f_call constructor w' args kwargs)"
  by (simp add: init_def)

text \<open>
  Claim C2. After \<^verbatim>\<open>disable()\<close>, a call of a function wrapped by \<^verbatim>\<open>strict\<close> and a call
  of a constructor wrapped by \<^verbatim>\<open>init\<close> are exactly calls of the underlying callable,
  whatever the arguments and the annotations: the wrappers raise nothing of their own,
  neither \<^verbatim>\<open>ArgumentTypeError\<close>, \<^verbatim>\<open>ReturnTypeError\<close> nor \<^verbatim>\<open>AnnotationError\<close>. After a
  following \<^verbatim>\<open>enable()\<close>, the calls go through the checks again: the checked call for
  \<^verbatim>\<open>strict\<close>, the initialization of the fields before the constructor for \<^verbatim>\<open>init\<close>.
\<close>

theorem toggle_off_calls_through:
  "strict func (disable w) args kwargs = f_call func (disable w) args kwargs \<and>
   init constructor (disable w) cargs ckwargs = f_call constructor (disable w) cargs ckwargs \<and>
   strict func (enable (disable w)) args kwargs
     = checked_call func (enable (disable w)) args kwargs \<and>
   init constructor (enable (disable w)) cargs ckwargs
     = (case initialize constructor cargs (enable (disable w)) of
          (Some e, w') \<Rightarrow> (Inl e, w')
        | (None, w') \<Rightarrow> f_call constructor w' cargs ckwargs)"
  by (simp add: strict_def init_def enable_def disable_def)

text \<open>
  With the toggle off, \<^verbatim>\<open>f("5")\<close> for \<^verbatim>\<open>def f(n: int) -> str\<close> returns, and so does
  the constructor of a class declaring two \<^verbatim>\<open>boolean\<close> fields; with the toggle on again
  the first raises \<^verbatim>\<open>ArgumentTypeError\<close> and the second \<^verbatim>\<open>AnnotationError\<close>.
\<close>

theorem toggle_off_calls_through_witness:
  "strict (f_int_str (VStr ''done'')) (disable w0) [VStr ''5''] []
     = (Inr (VStr ''done''), disable w0) \<and>
   init (Foo_init (AOne (AStr ''boolean'')) (AOne (AStr ''boolean''))) (disable w0)
     [VObj 0 0, VInt 1, VInt 2] [] = (Inr VNone, disable w0) \<and>
   strict (f_int_str (VStr ''done'')) (enable (disable w0)) [VStr ''5''] []
     = (Inl (ArgumentTypeError ''f'' ''n'' [IntT] StrT), enable (disable w0)) \<and>
   fst (init (Foo_init (AOne (AStr ''boolean'')) (AOne (AStr ''boolean'')))
          (enable (disable w0)) [VObj 0 0, VInt 1, VInt 2] [])
     = Inl (AnnotationError (UsedOnce {''boolean''}))"
  using toggle_off_calls_through
    [where func = "f_int_str (VStr ''done'')" and w = w0 and args = "[VStr ''5'']"
       and kwargs = "[]"
       and constructor = "Foo_init (AOne (AStr ''boolean'')) (AOne (AStr ''boolean''))"
       and cargs = "[VObj 0 0, VInt 1, VInt 2]" and ckwargs = "[]"]
  apply (simp add: strict_eval)
  apply (simp add: init_eval)
  done

subsection \<open>The checker of strict\<close>

lemma check_pairs_f_call [simp]:
  "check_pairs (func\<lparr>f_call := body\<rparr>) w ps = check_pairs func w ps"
  by (induction ps) (auto simp: Let_def split: option.splits)

lemma check_arguments_f_call [simp]:
  "check_arguments (func\<lparr>f_call := body\<rparr>) w args = check_arguments func w args"
  by (simp add: check_arguments_def Let_def split: list.splits)

lemma check_arguments_validated_pairs:
  assumes "validated_pairs func args \<noteq> []"
  shows "check_arguments func w args = check_pairs func w (validated_pairs func args)"
proof (cases "f_args func")
  case Nil
  with assms show ?thesis by (simp add: validated_pairs_def)
next
  case (Cons a0 more)
  from assms Cons have "args \<noteq> []"
    by (auto simp: validated_pairs_def split: if_splits)
  moreover from assms Cons have "f_args func \<noteq> [''self'']"
    by (auto simp: validated_pairs_def split: if_splits)
  ultimately show ?thesis using Cons
    by (simp add: check_arguments_def validated_pairs_def drop_Suc Let_def)
qed

lemma check_pairs_raises:
  assumes "(name, v) \<in> set ps" "f_annotations func name = Some ann"
    "\<not> type_ok w v (to_tuple ann)"
  shows "\<exists>name' v' ann'. (name', v') \<in> set ps \<and> f_annotations func name' = Some ann' \<and>
           \<not> type_ok w v' (to_tuple ann') \<and>
           check_pairs func w ps
             = Inl (ArgumentTypeError (f_name func) name' (types_of (to_tuple ann')) (type_of v'))"
  using assms
proof (induction ps)
  case Nil
  then show ?case by simp
next
  case (Cons p ps)
  obtain n x where p: "p = (n, x)" by (cases p)
  show ?case
  proof (cases "f_annotations func n")
    case None
    with Cons p have "(name, v) \<in> set ps" by auto
    from Cons.IH [OF this Cons.prems(2,3)] None p show ?thesis by auto
  next
    case (Some a)
    show ?thesis
    proof (cases "type_ok w x (to_tuple a)")
      case False
      with Some p show ?thesis by (intro exI [of _ n] exI [of _ x] exI [of _ a]) simp
    next
      case True
      with Cons Some p have "(name, v) \<in> set ps" by auto
      from Cons.IH [OF this Cons.prems(2,3)] Some True p show ?thesis by auto
    qed
  qed
qed

lemma type_ok_iff:
  "type_ok w v expected \<longleftrightarrow>
     isinstance w v (types_of expected) \<or> (AStr ''nonable'' \<in> set expected \<and> v = VNone)"
  by (simp add: type_ok_def)

lemma strict_argument_error:
  assumes "enabled w" "(name, v) \<in> set (validated_pairs func args)"
    "f_annotations func name = Some ann" "\<not> type_ok w v (to_tuple ann)"
  shows "\<exists>name' v' ann'. (name', v') \<in> set (validated_pairs func args) \<and>
           f_annotations func name' = Some ann' \<and> \<not> type_ok w v' (to_tuple ann') \<and>
           (\<forall>body. strict (func\<lparr>f_call := body\<rparr>) w args kwargs
              = (Inl (ArgumentTypeError (f_name func) name' (types_of (to_tuple ann'))
                   (type_of v')), w))"
proof -
  from assms(2) have ne: "validated_pairs func args \<noteq> []" by auto
  from check_pairs_raises [OF assms(2,3,4)] obtain name' v' ann' where
    *: "(name', v') \<in> set (validated_pairs func args)" "f_annotations func name' = Some ann'"
       "\<not> type_ok w v' (to_tuple ann')"
       "check_pairs func w (validated_pairs func args)
          = Inl (ArgumentTypeError (f_name func) name' (types_of (to_tuple ann')) (type_of v'))"
    by blast
  have "strict (func\<lparr>f_call := body\<rparr>) w args kwargs
          = (Inl (ArgumentTypeError (f_name func) name' (types_of (to_tuple ann'))
               (type_of v')), w)" for body
    using assms(1) *(4) check_arguments_validated_pairs [OF ne, of w]
    by (simp add: strict_def checked_call_def)
  with * show ?thesis by blast
qed

lemma strict_return_error:
  assumes "enabled w" "check_arguments func w args = Inr ()"
    "f_call func w args kwargs = (Inr r, w')" "f_annotations func ''return'' = Some ann"
    "\<not> type_ok w' r (to_tuple ann)"
  shows "strict func w args kwargs
           = (Inl (ReturnTypeError (f_name func) (types_of (to_tuple ann)) (type_of r)), w')"
  using assms by (simp add: strict_def checked_call_def check_return_def Let_def)

lemma strict_returns_result:
  assumes "enabled w" "check_arguments func w args = Inr ()"
    "f_call func w args kwargs = (Inr r, w')"
    "f_annotations func ''return'' = None \<or>
     (\<exists>ann. f_annotations func ''return'' = Some ann \<and> type_ok w' r (to_tuple ann))"
  shows "strict func w args kwargs = (Inr r, w')"
  using assms by (auto simp: strict_def checked_call_def check_return_def Let_def)

text \<open>
  Claim C1, as amended. With the toggle on, for every function wrapped by \<^verbatim>\<open>strict\<close>:
  \<^item> when a positional argument bound to a parameter of \<^verbatim>\<open>spec.args\<close> (a leading
    \<^verbatim>\<open>self\<close> and its argument aside) that has an annotation is neither an instance of
    one of the annotated types nor \<^verbatim>\<open>None\<close> under an annotation containing
    \<^verbatim>\<open>'nonable'\<close>, the call raises \<^verbatim>\<open>ArgumentTypeError\<close> for an argument that fails
    this test, naming the function, the parameter, the annotated types and the received
    type; the state is untouched and the outcome is the same whatever the body is: the
    body has not run;
  \<^item> when the check of the arguments passes, the body returns a result, and the result
    fails the same test against the \<^verbatim>\<open>return\<close> annotation, the call raises
    \<^verbatim>\<open>ReturnTypeError\<close> in the state the body left;
  \<^item> when the check of the arguments passes and the result passes (or no \<^verbatim>\<open>return\<close>
    annotation is declared), the call returns the result of the body, unchanged.
\<close>

theorem strict_contract:
  assumes "enabled w"
  shows
   "((name, v) \<in> set (validated_pairs func args) \<and> f_annotations func name = Some ann \<and>
     \<not> isinstance w v (types_of (to_tuple ann)) \<and>
     \<not> (AStr ''nonable'' \<in> set (to_tuple ann) \<and> v = VNone)
     \<longrightarrow> (\<exists>name' v' ann'. (name', v') \<in> set (validated_pairs func args) \<and>
            f_annotations func name' = Some ann' \<and> \<not> type_ok w v' (to_tuple ann') \<and>
            (\<forall>body. strict (func\<lparr>f_call := body\<rparr>) w args kwargs
               = (Inl (ArgumentTypeError (f_name func) name' (types_of (to_tuple ann'))
                    (type_of v')), w)))) \<and>
    (check_arguments func w args = Inr () \<and> f_call func w args kwargs = (Inr r, w') \<and>
     f_annotations func ''return'' = Some rann \<and> \<not> type_ok w' r (to_tuple rann)
     \<longrightarrow> strict func w args kwargs
           = (Inl (ReturnTypeError (f_name func) (types_of (to_tuple rann)) (type_of r)), w')) \<and>
    (check_arguments func w args = Inr () \<and> f_call func w args kwargs = (Inr r, w') \<and>
     (f_annotations func ''return'' = None \<or>
      (\<exists>ann. f_annotations func ''return'' = Some ann \<and> type_ok w' r (to_tuple ann)))
     \<longrightarrow> strict func w args kwargs = (Inr r, w'))"
proof (intro conjI impI)
  assume a: "(name, v) \<in> set (validated_pairs func args) \<and> f_annotations func name = Some ann \<and>
     \<not> isinstance w v (types_of (to_tuple ann)) \<and>
     \<not> (AStr ''nonable'' \<in> set (to_tuple ann) \<and> v = VNone)"
  then have "\<not> type_ok w v (to_tuple ann)" by (simp add: type_ok_iff)
  with a assms show "\<exists>name' v' ann'. (name', v') \<in> set (validated_pairs func args) \<and>
            f_annotations func name' = Some ann' \<and> \<not> type_ok w v' (to_tuple ann') \<and>
            (\<forall>body. strict (func\<lparr>f_call := body\<rparr>) w args kwargs
               = (Inl (ArgumentTypeError (f_name func) name' (types_of (to_tuple ann'))
                    (type_of v')), w))"
    using strict_argument_error by blast
next
  assume "check_arguments func w args = Inr () \<and> f_call func w args kwargs = (Inr r, w') \<and>
     f_annotations func ''return'' = Some rann \<and> \<not> type_ok w' r (to_tuple rann)"
  with assms show "strict func w args kwargs
           = (Inl (ReturnTypeError (f_name func) (types_of (to_tuple rann)) (type_of r)), w')"
    using strict_return_error by blast
next
  assume "check_arguments func w args = Inr () \<and> f_call func w args kwargs = (Inr r, w') \<and>
     (f_annotations func ''return'' = None \<or>
      (\<exists>ann. f_annotations func ''return'' = Some ann \<and> type_ok w' r (to_tuple ann)))"
  with assms show "strict func w args kwargs = (Inr r, w')"
    using strict_returns_result by blast
qed

text \<open>
  Claim C1 as stated fails: for \<^verbatim>\<open>def f(n: (int, 'nonable'))\<close> the call \<^verbatim>\<open>f(None)\<close>
  supplies a positional argument of type \<^verbatim>\<open>NoneType\<close>, which is not among the
  annotated types (\<^verbatim>\<open>int\<close> alone), and yet no \<^verbatim>\<open>ArgumentTypeError\<close> is raised: the
  body runs and its result is returned.
\<close>

theorem strict_nonable_none_counterexample:
  "enabled w0 \<and> validated_pairs f_nonable [VNone] = [(''n'', VNone)] \<and>
   f_annotations f_nonable ''n'' = Some (ATuple [AType IntT, AStr ''nonable'']) \<and>
   types_of (to_tuple (ATuple [AType IntT, AStr ''nonable''])) = [IntT] \<and>
   type_of VNone = NoneType \<and>
   strict f_nonable w0 [VNone] [] = (Inr (VStr ''done''), w0)"
  by (simp add: strict_eval validated_pairs_def)

text \<open>
  For \<^verbatim>\<open>def f(n: int) -> str\<close>: \<^verbatim>\<open>f("5")\<close> raises \<^verbatim>\<open>ArgumentTypeError\<close>; \<^verbatim>\<open>f(5)\<close>
  with a body returning \<^verbatim>\<open>7\<close> raises \<^verbatim>\<open>ReturnTypeError\<close>; \<^verbatim>\<open>f(5)\<close> with a body
  returning a string returns that string.
\<close>

theorem strict_contract_witness:
  "enabled w0 \<and>
   strict (f_int_str (VStr ''done'')) w0 [VStr ''5''] []
     = (Inl (ArgumentTypeError ''f'' ''n'' [IntT] StrT), w0) \<and>
   strict (f_int_str (VInt 7)) w0 [VInt 5] []
     = (Inl (ReturnTypeError ''f'' [StrT] IntT), w0) \<and>
   strict (f_int_str (VStr ''done'')) w0 [VInt 5] [] = (Inr (VStr ''done''), w0)"
  using strict_contract [where w = w0 and func = "f_int_str (VStr ''done'')"
      and args = "[VStr ''5'']" and name = "''n''" and v = "VStr ''5''"
      and ann = "AOne (AType IntT)" and kwargs = "[]"]
    strict_contract [where w = w0 and func = "f_int_str (VInt 7)" and args = "[VInt 5]"
      and kwargs = "[]" and r = "VInt 7" and w' = w0 and rann = "AOne (AType StrT)"]
    strict_contract [where w = w0 and func = "f_int_str (VStr ''done'')" and args = "[VInt 5]"
      and kwargs = "[]" and r = "VStr ''done''" and w' = w0]
  by (simp add: strict_eval validated_pairs_def)

subsection \<open>Consistency of the keywords\<close>

lemma uniques_local_incompatible: "set uniques \<subseteq> set local_incompatible"
  by (simp add: uniques_def local_incompatible_def)

lemma check_consistency_raises_unchanged:
  "check_consistency self a = (Some e, self') \<Longrightarrow> self' = self"
  by (auto simp: check_consistency_cases split: if_splits)

lemma check_consistency_passes_extends:
  "check_consistency self a = (None, self') \<Longrightarrow>
     self' = self\<lparr>obj_keywords := obj_keywords self \<union> arg_keywords a\<rparr>"
  by (auto simp: check_consistency_cases split: if_splits)

lemma check_consistency_claimed:
  assumes "t \<in> set uniques" "t \<in> arg_keywords a" "t \<in> obj_keywords self"
  shows "\<exists>msg. check_consistency self a = (Some (AnnotationError msg), self) \<and>
           t \<in> named_keywords msg"
proof (cases "''local'' \<in> arg_keywords a")
  case True
  from assms uniques_local_incompatible have "t \<in> arg_keywords a \<inter> set local_incompatible"
    by auto
  with True show ?thesis by (auto simp: check_consistency_cases)
next
  case False
  from assms have "t \<in> arg_keywords a \<inter> set uniques \<inter> obj_keywords self" by simp
  with False show ?thesis by (auto simp: check_consistency_cases)
qed

lemma add_argument_check_raises:
  "check_consistency self a = (Some e, self') \<Longrightarrow> add_argument self a w = ((Some e, w), self)"
  by (frule check_consistency_raises_unchanged) (simp add: add_argument_def)

lemma add_argument_object:
  "snd (add_argument self a w) = snd (check_consistency self a)"
  by (cases "check_consistency self a" rule: prod.exhaust; cases "fst (check_consistency self a)")
     (auto simp: add_argument_def split: prod.splits)

lemma add_argument_passes_check:
  assumes "add_argument self a w = ((None, w'), self')"
  shows "check_consistency self a = (None, self')"
proof (cases "check_consistency self a")
  case (Pair r s)
  with assms show ?thesis
    by (cases r) (auto simp: add_argument_def split: prod.splits)
qed

lemma Argument_keywords:
  "Argument w name v ann = Inr a \<Longrightarrow> arg_keywords a = parse_keywords ann"
  by (auto simp: Argument_def Let_def split: sum.splits)

lemma Argument_fields:
  "Argument w name v ann = Inr a \<Longrightarrow>
     a = \<lparr>arg_name = name, arg_value = v, arg_types = parse_types ann,
          arg_keywords = parse_keywords ann\<rparr>"
  by (auto simp: Argument_def Let_def split: sum.splits)

lemma add_arguments_append:
  "add_arguments anns self (pre @ post) w =
     (case add_arguments anns self pre w of
        ((None, w1), self1) \<Rightarrow> add_arguments anns self1 post w1
      | ((Some e, w1), self1) \<Rightarrow> ((Some e, w1), self1))"
proof (induction pre arbitrary: self w)
  case Nil
  then show ?case by simp
next
  case (Cons p pre)
  obtain n v where p: "p = (n, v)" by (cases p)
  show ?case
    by (simp add: p Cons.IH split: sum.splits prod.splits option.splits)
qed

lemma add_arguments_keywords:
  "add_arguments anns self pre w = ((None, w1), self1) \<Longrightarrow>
     obj_keywords self1
       = obj_keywords self \<union> (\<Union>(n, v) \<in> set pre. parse_keywords (annotation_of anns n))"
proof (induction pre arbitrary: self w)
  case Nil
  then show ?case by simp
next
  case (Cons p pre)
  obtain n v where p: "p = (n, v)" by (cases p)
  from Cons.prems p obtain a w' self' where
    a: "Argument w n v (annotation_of anns n) = Inr a"
    and step: "add_argument self a w = ((None, w'), self')"
    and rest: "add_arguments anns self' pre w' = ((None, w1), self1)"
    by (auto split: sum.splits prod.splits option.splits)
  from add_argument_passes_check [OF step]
  have "obj_keywords self' = obj_keywords self \<union> arg_keywords a"
    by (auto dest: check_consistency_passes_extends)
  with Cons.IH [OF rest] Argument_keywords [OF a] p show ?case by auto
qed

text \<open>
  Claim C4, as amended. Let two fields carry the same keyword \<open>t\<close> of \<^verbatim>\<open>uniques\<close>.
  \<^item> The check of the first succeeds, and extends the accumulated keywords by those of
    the field, provided the field does not carry \<^verbatim>\<open>local\<close> and none of its unique
    keywords is claimed already.
  \<^item> Once \<open>t\<close> is among the accumulated keywords, the check of the second raises
    \<^verbatim>\<open>AnnotationError\<close> with a message that lists \<open>t\<close>, and leaves the accumulated
    keywords as they were.
  \<^item> In the loop over the fields: when the fields before the second have been processed
    without exception, one of them carrying \<open>t\<close>, and the value of the second passes its
    type check, the loop stops at the second field with that \<^verbatim>\<open>AnnotationError\<close>, in the
    state reached before it.
  \<^item> The accumulated keywords are extended only when the check succeeds.
\<close>

theorem unique_keyword_claimed_once:
  assumes "t \<in> set uniques" "t \<in> arg_keywords a1" "t \<in> arg_keywords a2"
  shows
    "(''local'' \<notin> arg_keywords a1 \<and> arg_keywords a1 \<inter> set uniques \<inter> obj_keywords self = {}
        \<longrightarrow> check_consistency self a1
              = (None, self\<lparr>obj_keywords := obj_keywords self \<union> arg_keywords a1\<rparr>)) \<and>
     (t \<in> obj_keywords self2
        \<longrightarrow> (\<exists>msg. check_consistency self2 a2 = (Some (AnnotationError msg), self2) \<and>
                   t \<in> named_keywords msg)) \<and>
     (add_arguments anns self0 pre w = ((None, w1), self1) \<and> (n1, v1) \<in> set pre \<and>
      t \<in> parse_keywords (annotation_of anns n1) \<and>
      Argument w1 n2 v2 (annotation_of anns n2) = Inr a2
        \<longrightarrow> (\<exists>msg. add_arguments anns self0 (pre @ (n2, v2) # post) w
                     = ((Some (AnnotationError msg), w1), self1) \<and>
                   t \<in> named_keywords msg)) \<and>
     (\<forall>r self'. check_consistency self a1 = (r, self') \<longrightarrow>
        (r = None \<longrightarrow> obj_keywords self' = obj_keywords self \<union> arg_keywords a1) \<and>
        (r \<noteq> None \<longrightarrow> self' = self))"
proof (intro conjI impI allI)
  assume "''local'' \<notin> arg_keywords a1 \<and> arg_keywords a1 \<inter> set uniques \<inter> obj_keywords self = {}"
  then show "check_consistency self a1
               = (None, self\<lparr>obj_keywords := obj_keywords self \<union> arg_keywords a1\<rparr>)"
    by (simp add: check_consistency_cases)
next
  assume "t \<in> obj_keywords self2"
  with assms show "\<exists>msg. check_consistency self2 a2 = (Some (AnnotationError msg), self2) \<and>
                     t \<in> named_keywords msg"
    by (intro check_consistency_claimed)
next
  assume h: "add_arguments anns self0 pre w = ((None, w1), self1) \<and> (n1, v1) \<in> set pre \<and>
      t \<in> parse_keywords (annotation_of anns n1) \<and>
      Argument w1 n2 v2 (annotation_of anns n2) = Inr a2"
  then have "t \<in> obj_keywords self1"
    using add_arguments_keywords [of anns self0 pre w w1 self1] by auto
  from check_consistency_claimed [OF assms(1,3) this] obtain msg where
    msg: "check_consistency self1 a2 = (Some (AnnotationError msg), self1)"
         "t \<in> named_keywords msg"
    by blast
  from add_argument_check_raises [OF msg(1)] h
  have "add_arguments anns self0 (pre @ (n2, v2) # post) w
          = ((Some (AnnotationError msg), w1), self1)"
    by (simp add: add_arguments_append)
  with msg(2) show "\<exists>msg. add_arguments anns self0 (pre @ (n2, v2) # post) w
                     = ((Some (AnnotationError msg), w1), self1) \<and> t \<in> named_keywords msg"
    by blast
next
  fix r self'
  assume "check_consistency self a1 = (r, self')" "r = None"
  then show "obj_keywords self' = obj_keywords self \<union> arg_keywords a1"
    by (auto dest: check_consistency_passes_extends)
next
  fix r self'
  assume "check_consistency self a1 = (r, self')" "r \<noteq> None"
  then show "self' = self"
    by (auto dest: check_consistency_raises_unchanged)
qed

text \<open>
  Claim C4 as stated fails: for \<^verbatim>\<open>def __init__(self, a: 'local boolean', b: 'boolean')\<close>
  two distinct fields carry \<^verbatim>\<open>boolean\<close>, and processing the first of them does not
  succeed: it raises \<^verbatim>\<open>AnnotationError\<close>, by the rule on \<^verbatim>\<open>local\<close>.
\<close>

theorem first_field_with_local_rejected_counterexample:
  "Argument w0 ''a'' (VInt 1) (AOne (AStr ''local boolean''))
     = Inr \<lparr>arg_name = ''a'', arg_value = VInt 1, arg_types = [],
             arg_keywords = {''local'', ''boolean''}\<rparr> \<and>
   Argument w0 ''b'' (VInt 2) (AOne (AStr ''boolean''))
     = Inr \<lparr>arg_name = ''b'', arg_value = VInt 2, arg_types = [],
             arg_keywords = {''boolean''}\<rparr> \<and>
   add_argument (Object w0 (VObj 0 0))
       \<lparr>arg_name = ''a'', arg_value = VInt 1, arg_types = [],
         arg_keywords = {''local'', ''boolean''}\<rparr> w0
     = ((Some (AnnotationError (LocalIncompatible {''boolean''})), w0), Object w0 (VObj 0 0)) \<and>
   init (Foo_init (AOne (AStr ''local boolean'')) (AOne (AStr ''boolean''))) w0
       [VObj 0 0, VInt 1, VInt 2] []
     = (Inl (AnnotationError (LocalIncompatible {''boolean''})), w0)"
  by (simp add: init_eval insert_commute)

text \<open>
  For \<^verbatim>\<open>def __init__(self, a: 'boolean', b: 'boolean')\<close> the check of \<^verbatim>\<open>a\<close> succeeds,
  the check of \<^verbatim>\<open>b\<close> raises, and so does \<^verbatim>\<open>Foo(1, 2)\<close>.
\<close>

theorem unique_keyword_claimed_once_witness:
  "''boolean'' \<in> set uniques \<and>
   check_consistency (Object w0 (VObj 0 0))
       \<lparr>arg_name = ''a'', arg_value = VInt 1, arg_types = [], arg_keywords = {''boolean''}\<rparr>
     = (None, (Object w0 (VObj 0 0))\<lparr>obj_keywords := {''boolean''}\<rparr>) \<and>
   check_consistency ((Object w0 (VObj 0 0))\<lparr>obj_keywords := {''boolean''}\<rparr>)
       \<lparr>arg_name = ''b'', arg_value = VInt 2, arg_types = [], arg_keywords = {''boolean''}\<rparr>
     = (Some (AnnotationError (UsedOnce {''boolean''})),
        (Object w0 (VObj 0 0))\<lparr>obj_keywords := {''boolean''}\<rparr>) \<and>
   fst (init (Foo_init (AOne (AStr ''boolean'')) (AOne (AStr ''boolean''))) w0
          [VObj 0 0, VInt 1, VInt 2] [])
     = Inl (AnnotationError (UsedOnce {''boolean''}))"
  using unique_keyword_claimed_once
    [where t = "''boolean''"
       and ?a1.0 = "\<lparr>arg_name = ''a'', arg_value = VInt 1, arg_types = [],
                      arg_keywords = {''boolean''}\<rparr>"
       and ?a2.0 = "\<lparr>arg_name = ''b'', arg_value = VInt 2, arg_types = [],
                      arg_keywords = {''boolean''}\<rparr>"
       and self = "Object w0 (VObj 0 0)"
       and ?self2.0 = "(Object w0 (VObj 0 0))\<lparr>obj_keywords := {''boolean''}\<rparr>"]
  by (simp add: init_eval)

text \<open>
  Claim C5. When the keywords of an argument contain \<^verbatim>\<open>local\<close> together with at least
  one keyword of \<^verbatim>\<open>local_incompatible\<close> (private, boolean, number, string, container,
  compare), \<^verbatim>\<open>check_consistency\<close>, and with it \<^verbatim>\<open>add_argument\<close>, raises
  \<^verbatim>\<open>AnnotationError\<close> with the message listing exactly the keywords of the argument that
  are incompatible with \<^verbatim>\<open>local\<close>; nothing is installed or assigned.
\<close>

theorem local_incompatible_keywords_rejected:
  assumes "''local'' \<in> arg_keywords a" "k \<in> arg_keywords a" "k \<in> set local_incompatible"
  shows "check_consistency self a
           = (Some (AnnotationError (LocalIncompatible (arg_keywords a \<inter> set local_incompatible))),
              self) \<and>
         add_argument self a w
           = ((Some (AnnotationError (LocalIncompatible (arg_keywords a \<inter> set local_incompatible))),
               w), self) \<and>
         k \<in> arg_keywords a \<inter> set local_incompatible"
proof -
  from assms have ne: "arg_keywords a \<inter> set local_incompatible \<noteq> {}" by auto
  with assms(1) have c: "check_consistency self a
           = (Some (AnnotationError (LocalIncompatible (arg_keywords a \<inter> set local_incompatible))),
              self)"
    by (simp add: check_consistency_cases)
  from add_argument_check_raises [OF c] c assms show ?thesis by simp
qed


text \<open>
  A field annotated \<^verbatim>\<open>'local private'\<close> is rejected, and so is the construction
  \<^verbatim>\<open>Foo(1, 2)\<close> of a class declaring it.
\<close>

theorem local_incompatible_keywords_rejected_witness:
  "''private'' \<in> set local_incompatible \<and>
   add_argument (Object w0 (VObj 0 0))
       \<lparr>arg_name = ''a'', arg_value = VInt 1, arg_types = [],
         arg_keywords = {''local'', ''private''}\<rparr> w0
     = ((Some (AnnotationError (LocalIncompatible {''private''})), w0), Object w0 (VObj 0 0)) \<and>
   init (Foo_init (AOne (AStr ''local private'')) (AOne (AType IntT))) w0
       [VObj 0 0, VInt 1, VInt 2] []
     = (Inl (AnnotationError (LocalIncompatible {''private''})), w0)"
  using local_incompatible_keywords_rejected
    [where a = "\<lparr>arg_name = ''a'', arg_value = VInt 1, arg_types = [],
                   arg_keywords = {''local'', ''private''}\<rparr>"
       and k = "''private''" and self = "Object w0 (VObj 0 0)" and w = w0]
  by (simp add: init_eval)

subsection \<open>Private fields\<close>

text \<open>
  Claim C8 against the code. For \<^verbatim>\<open>def __init__(self, x: 'private'): pass\<close> in a class
  \<^verbatim>\<open>Foo\<close>, the first construction \<^verbatim>\<open>Foo(1)\<close> attaches the value under \<^verbatim>\<open>_Foo__x\<close>. The
  second construction \<^verbatim>\<open>Foo(2)\<close> finds the type initialized, skips \<^verbatim>\<open>set_private\<close>
  with the rest of the guarded block, and attaches the value under the plain name
  \<^verbatim>\<open>x\<close>: the second instance has no attribute \<^verbatim>\<open>_Foo__x\<close>.
\<close>

theorem private_field_second_construction_unmangled:
  "f_annotations Foo_private ''x'' = Some (AOne (AStr ''private'')) \<and>
   init Foo_private w0 [VObj 0 0, VInt 1] []
     = (Inr VNone, snd (init Foo_private w0 [VObj 0 0, VInt 1] [])) \<and>
   heap (snd (init Foo_private w0 [VObj 0 0, VInt 1] [])) 0 ''_Foo__x'' = Some (VInt 1) \<and>
   heap (snd (init Foo_private w0 [VObj 0 0, VInt 1] [])) 0 ''x'' = None \<and>
   enabled (snd (init Foo_private w0 [VObj 0 0, VInt 1] [])) \<and>
   init Foo_private (snd (init Foo_private w0 [VObj 0 0, VInt 1] [])) [VObj 0 1, VInt 2] []
     = (Inr VNone,
        snd (init Foo_private (snd (init Foo_private w0 [VObj 0 0, VInt 1] []))
               [VObj 0 1, VInt 2] [])) \<and>
   heap (snd (init Foo_private (snd (init Foo_private w0 [VObj 0 0, VInt 1] []))
                [VObj 0 1, VInt 2] [])) 1 ''_Foo__x'' = None \<and>
   heap (snd (init Foo_private (snd (init Foo_private w0 [VObj 0 0, VInt 1] []))
                [VObj 0 1, VInt 2] [])) 1 ''x'' = Some (VInt 2)"
  by (simp add: init_eval)


subsection \<open>Keyword arguments\<close>

text \<open>
  Claim C10. The check of the arguments reads the positional arguments only
  (\<open>check_arguments\<close> has no access to the keyword arguments). So, with the toggle on,
  whenever the positional arguments pass the check (in particular when there is none),
  the wrapped call is the call of the body followed by the check of the result, whatever
  the keyword arguments are: an exception of the wrapped call is either the body's own or
  a \<^verbatim>\<open>ReturnTypeError\<close>, never an \<^verbatim>\<open>ArgumentTypeError\<close> of the wrapper.
\<close>

theorem keyword_arguments_not_validated:
  assumes "enabled w" "check_arguments func w args = Inr ()"
  shows "strict func w args kwargs = check_return func (f_call func w args kwargs) \<and>
         (\<forall>e w'. strict func w args kwargs = (Inl e, w') \<longrightarrow>
            f_call func w args kwargs = (Inl e, w') \<or>
            (\<exists>ts t. e = ReturnTypeError (f_name func) ts t))"
proof -
  have eq: "strict func w args kwargs = check_return func (f_call func w args kwargs)"
    using assms by (simp add: strict_def checked_call_def)
  have "f_call func w args kwargs = (Inl e, w') \<or> (\<exists>ts t. e = ReturnTypeError (f_name func) ts t)"
    if "check_return func (f_call func w args kwargs) = (Inl e, w')" for e w'
    using that
    by (cases "f_call func w args kwargs")
       (auto simp: check_return_def Let_def split: sum.splits option.splits if_splits)
  with eq show ?thesis by simp
qed

text \<open>
  For \<^verbatim>\<open>def f(n: int) -> str\<close>, the call \<^verbatim>\<open>f(n="5")\<close> returns the result of the body,
  although the string fails the test against \<^verbatim>\<open>int\<close>.
\<close>

theorem keyword_arguments_not_validated_witness:
  "enabled w0 \<and> check_arguments (f_int_str (VStr ''done'')) w0 [] = Inr () \<and>
   \<not> type_ok w0 (VStr ''5'') (to_tuple (AOne (AType IntT))) \<and>
   strict (f_int_str (VStr ''done'')) w0 [] [(''n'', VStr ''5'')] = (Inr (VStr ''done''), w0)"
  using keyword_arguments_not_validated
    [where w = w0 and func = "f_int_str (VStr ''done'')" and args = "[]"
       and kwargs = "[(''n'', VStr ''5'')]"]
  by (simp add: strict_eval)

subsection \<open>The init wrapper with the toggle off\<close>

text \<open>
  Claim C7, as amended. With the toggle off, the wrapper returned by \<^verbatim>\<open>init\<close> does nothing
  but call the original constructor: no consistency check, no installation of methods
  and no assignment of the declared fields either. The statement \<^verbatim>\<open>setattr\<close> of
  \<^verbatim>\<open>add_argument\<close> is inside \<^verbatim>\<open>if _enabled:\<close>, so the instance only gets the attributes
  that the body of the constructor assigns itself.
\<close>

theorem init_disabled_only_calls_constructor:
  assumes "\<not> enabled w"
  shows "init constructor w args kwargs = f_call constructor w args kwargs \<and>
         (heap (snd (f_call constructor w args kwargs)) = heap w \<longrightarrow>
            heap (snd (init constructor w args kwargs)) = heap w)"
  using assms by (simp add: init_def)

text \<open>
  After \<^verbatim>\<open>disable()\<close>, \<^verbatim>\<open>Foo(1, 2)\<close> for \<^verbatim>\<open>def __init__(self, a: int, b: int): pass\<close>
  leaves the heap as it was.
\<close>

theorem init_disabled_only_calls_constructor_witness:
  "\<not> enabled (disable w0) \<and>
   init (Foo_init (AOne (AType IntT)) (AOne (AType IntT))) (disable w0)
     [VObj 0 0, VInt 1, VInt 2] [] = (Inr VNone, disable w0) \<and>
   heap (snd (init (Foo_init (AOne (AType IntT)) (AOne (AType IntT))) (disable w0)
     [VObj 0 0, VInt 1, VInt 2] [])) = heap (disable w0)"
  using init_disabled_only_calls_constructor
    [where w = "disable w0" and constructor = "Foo_init (AOne (AType IntT)) (AOne (AType IntT))"
       and args = "[VObj 0 0, VInt 1, VInt 2]" and kwargs = "[]"]
  by (simp add: init_eval)

text \<open>
  Claim C7 as stated fails: after \<^verbatim>\<open>disable()\<close>, \<^verbatim>\<open>Foo(1, 2)\<close> returns with neither
  \<^verbatim>\<open>a\<close> nor \<^verbatim>\<open>b\<close> attached to the instance, while with the toggle on the same call
  attaches \<^verbatim>\<open>a\<close>.
\<close>

theorem init_disabled_field_not_assigned_counterexample:
  "\<not> enabled (disable w0) \<and>
   f_args (Foo_init (AOne (AType IntT)) (AOne (AType IntT))) = [''self'', ''a'', ''b''] \<and>
   init (Foo_init (AOne (AType IntT)) (AOne (AType IntT))) (disable w0)
     [VObj 0 0, VInt 1, VInt 2] [] = (Inr VNone, disable w0) \<and>
   heap (disable w0) 0 ''a'' = None \<and> heap (disable w0) 0 ''b'' = None \<and>
   heap (snd (init (Foo_init (AOne (AType IntT)) (AOne (AType IntT))) w0
     [VObj 0 0, VInt 1, VInt 2] [])) 0 ''a'' = Some (VInt 1)"
  by (simp add: init_eval)

subsection \<open>Construction of an Argument\<close>

lemma parse_annotations_types:
  "fst (parse_annotations es (ts, ks)) = ts @ types_of es"
  by (induction es "(ts, ks)" arbitrary: ts ks rule: parse_annotations.induct)
     (auto simp: types_of_def)

lemma parse_types_eq: "parse_types ann = types_of (to_tuple ann)"
  by (simp add: parse_types_def parse_annotations_types)

lemma Argument_cases:
  "Argument w name v ann =
     (if parse_types ann \<noteq> [] \<and> \<not> isinstance w v (parse_types ann) \<and>
         \<not> (v = VNone \<and> ''nonable'' \<in> parse_keywords ann)
      then Inl (ArgumentTypeError ''__init__'' name (parse_types ann) (type_of v))
      else Inr \<lparr>arg_name = name, arg_value = v, arg_types = parse_types ann,
                arg_keywords = parse_keywords ann\<rparr>)"
  by (auto simp: Argument_def check_type_def Let_def)

text \<open>
  Claim C3. \<^verbatim>\<open>Argument(name, value, annotations)\<close> raises exactly when the types among the
  annotations are not empty, the value is an instance of none of them, and it is not the
  case that the value is \<^verbatim>\<open>None\<close> with \<^verbatim>\<open>nonable\<close> among the keywords. The exception is
  the \<^verbatim>\<open>ArgumentTypeError\<close> for the function \<^verbatim>\<open>__init__\<close>, the name of the argument, these
  types and the type of the value. When \<^verbatim>\<open>nonable\<close> is among the keywords, the
  construction with \<^verbatim>\<open>None\<close> succeeds whatever the types are. The types of the argument
  are the types of the annotation tuple, in order.
\<close>

theorem Argument_raises_iff:
  "((\<exists>e. Argument w name v ann = Inl e) \<longleftrightarrow>
      parse_types ann \<noteq> [] \<and> \<not> isinstance w v (parse_types ann) \<and>
      \<not> (v = VNone \<and> ''nonable'' \<in> parse_keywords ann)) \<and>
   (\<forall>e. Argument w name v ann = Inl e \<longrightarrow>
      e = ArgumentTypeError ''__init__'' name (parse_types ann) (type_of v)) \<and>
   (''nonable'' \<in> parse_keywords ann \<longrightarrow>
      Argument w name VNone ann
        = Inr \<lparr>arg_name = name, arg_value = VNone, arg_types = parse_types ann,
                arg_keywords = parse_keywords ann\<rparr>) \<and>
   parse_types ann = types_of (to_tuple ann)"
  by (auto simp: Argument_cases parse_types_eq)

text \<open>
  With the annotation \<^verbatim>\<open>(int, 'nonable')\<close>, a string is rejected and \<^verbatim>\<open>None\<close> is accepted.
\<close>

theorem Argument_raises_iff_witness:
  "parse_types (ATuple [AType IntT, AStr ''nonable'']) = [IntT] \<and>
   ''nonable'' \<in> parse_keywords (ATuple [AType IntT, AStr ''nonable'']) \<and>
   \<not> isinstance w0 (VStr ''x'') [IntT] \<and>
   Argument w0 ''n'' (VStr ''x'') (ATuple [AType IntT, AStr ''nonable''])
     = Inl (ArgumentTypeError ''__init__'' ''n'' [IntT] StrT) \<and>
   Argument w0 ''n'' VNone (ATuple [AType IntT, AStr ''nonable''])
     = Inr \<lparr>arg_name = ''n'', arg_value = VNone, arg_types = [IntT],
             arg_keywords = {''nonable''}\<rparr>"
  using Argument_raises_iff
    [where w = w0 and name = "''n''" and v = "VStr ''x''"
       and ann = "ATuple [AType IntT, AStr ''nonable'']"]
  by (simp add: init_eval)

subsection \<open>Effects on the class table\<close>

lemma lookup_mro_cong:
  "classes w = classes w' \<Longrightarrow> lookup_mro w cs k = lookup_mro w' cs k"
  by (induction cs) (auto split: option.splits)

lemma getattr_type_cong:
  "classes w = classes w' \<Longrightarrow> getattr_type w t k = getattr_type w' t k"
  by (auto simp: getattr_type_def lookup_mro_cong [of w w'] split: pytype.splits option.splits)

lemma hasattr_type_cong:
  "classes w = classes w' \<Longrightarrow> hasattr_type w t k = hasattr_type w' t k"
  by (simp add: hasattr_type_def getattr_type_cong [of w w'])

lemma finalized_cong:
  "classes w = classes w' \<Longrightarrow> finalized w c = finalized w' c"
  by (simp add: finalized_def hasattr_type_cong [of w w'])

lemma finalized_hasattr:
  "finalized w c \<Longrightarrow> hasattr_type w (ClassT c) ''_initialized''"
  by (simp add: finalized_def hasattr_type_def getattr_type_def)

lemma class_update_idem:
  "cdict (classes w c) k = Some x \<Longrightarrow> class_update w c k x = w"
  by (simp add: class_update_def fun_upd_idem)

lemma classes_setattr_obj:
  "classes (snd (setattr_obj v k x w)) = classes w"
  by (simp add: setattr_obj_def split: pyval.splits)

lemma check_consistency_obj_type:
  "obj_type (snd (check_consistency self a)) = obj_type self \<and>
   obj (snd (check_consistency self a)) = obj self \<and>
   obj_name (snd (check_consistency self a)) = obj_name self"
  by (simp add: check_consistency_cases)

lemma add_argument_obj_type:
  "obj_type (snd (add_argument self a w)) = obj_type self \<and>
   obj (snd (add_argument self a w)) = obj self \<and>
   obj_name (snd (add_argument self a w)) = obj_name self"
  by (simp add: add_argument_object check_consistency_obj_type)

lemma add_arguments_obj_type:
  "obj_type (snd (add_arguments anns self ps w)) = obj_type self \<and>
   obj (snd (add_arguments anns self ps w)) = obj self \<and>
   obj_name (snd (add_arguments anns self ps w)) = obj_name self"
proof (induction ps arbitrary: self w)
  case Nil
  then show ?case by simp
next
  case (Cons p ps)
  obtain n v where p: "p = (n, v)" by (cases p)
  show ?case
  proof (cases "Argument w n v (annotation_of anns n)")
    case (Inl e)
    with p show ?thesis by simp
  next
    case (Inr a)
    obtain r w' self' where step: "add_argument self a w = ((r, w'), self')"
      by (metis surj_pair)
    have t: "obj_type self' = obj_type self \<and> obj self' = obj self \<and>
             obj_name self' = obj_name self"
      using add_argument_obj_type [of self a w] step by simp
    show ?thesis
      using Cons.IH [of self' w'] step Inr p t by (cases r) simp_all
  qed
qed

lemma add_argument_initialized_classes:
  assumes "hasattr_type w (obj_type self) ''_initialized''"
  shows "classes (snd (fst (add_argument self a w))) = classes w"
proof (cases "check_consistency self a")
  case (Pair r self')
  have t: "obj_type self' = obj_type self"
    using check_consistency_obj_type [of self a] Pair by simp
  show ?thesis
  proof (cases r)
    case None
    with Pair t assms show ?thesis
      using classes_setattr_obj [of "obj self'" "arg_name a" "arg_value a" w]
      by (simp add: add_argument_def and_then_def)
  next
    case (Some e)
    with Pair show ?thesis by (simp add: add_argument_def)
  qed
qed

lemma add_arguments_initialized_classes:
  assumes "hasattr_type w (obj_type self) ''_initialized''"
  shows "classes (snd (fst (add_arguments anns self ps w))) = classes w \<and>
         obj_type (snd (add_arguments anns self ps w)) = obj_type self"
  using assms
proof (induction ps arbitrary: self w)
  case Nil
  then show ?case by simp
next
  case (Cons p ps)
  obtain n v where p: "p = (n, v)" by (cases p)
  show ?case
  proof (cases "Argument w n v (annotation_of anns n)")
    case (Inl e)
    with p show ?thesis by simp
  next
    case (Inr a)
    obtain r w' self' where step: "add_argument self a w = ((r, w'), self')"
      by (metis surj_pair)
    have c: "classes w' = classes w"
      using add_argument_initialized_classes [OF Cons.prems, of a] step by simp
    have t: "obj_type self' = obj_type self"
      using add_argument_obj_type [of self a w] step by simp
    show ?thesis
    proof (cases r)
      case None
      have "hasattr_type w' (obj_type self') ''_initialized''"
        using Cons.prems c t hasattr_type_cong [of w' w] by simp
      from Cons.IH [OF this] None step Inr p c t show ?thesis by simp
    next
      case (Some e)
      with step Inr p c t show ?thesis by simp
    qed
  qed
qed

lemma finalize_finalized:
  assumes "obj_type self = ClassT c" "finalized w c"
  shows "finalize self w = (None, w)"
proof -
  from assms(2) have i: "cdict (classes w c) ''_initialized'' = Some (Attr (VBool True))"
    and s: "hasattr_type w (ClassT c) ''_varstr'' \<Longrightarrow>
            cdict (classes w c) ''__str__'' = Some (Method ''_str'')"
    by (auto simp: finalized_def)
  have "add_tostring self w = (None, w)"
    using assms(1) s by (auto simp: add_tostring_def set_type_attr_def class_update_idem)
  then show ?thesis
    using assms(1) i by (simp add: finalize_def and_then_def set_type_attr_def class_update_idem)
qed

lemma lookup_mro_class_update_other:
  "k' \<noteq> k \<Longrightarrow> lookup_mro (class_update w c k x) cs k' = lookup_mro w cs k'"
  by (induction cs) (auto simp: class_update_def split: option.splits)

lemma cbases_class_update [simp]:
  "cbases (classes (class_update w c k x) d) = cbases (classes w d)"
  by (simp add: class_update_def)

lemma getattr_type_class_update_other:
  "k' \<noteq> k \<Longrightarrow> getattr_type (class_update w c k x) t k' = getattr_type w t k'"
  by (cases t) (simp_all add: getattr_type_def lookup_mro_class_update_other del: lookup_mro.simps)

lemma hasattr_type_class_update_other:
  "k' \<noteq> k \<Longrightarrow> hasattr_type (class_update w c k x) t k' = hasattr_type w t k'"
  by (simp add: hasattr_type_def getattr_type_class_update_other)

lemma finalize_establishes:
  assumes "finalize self w = (None, w1)"
  shows "\<exists>c. obj_type self = ClassT c \<and> finalized w1 c"
proof (cases "obj_type self")
  case (ClassT c)
  let ?w' = "if hasattr_type w (ClassT c) ''_varstr''
             then class_update w c ''__str__'' (Method ''_str'') else w"
  from assms ClassT have w1: "w1 = class_update ?w' c ''_initialized'' (Attr (VBool True))"
    by (auto simp: finalize_def add_tostring_def and_then_def set_type_attr_def split: if_splits)
  have h: "hasattr_type w1 (ClassT c) ''_varstr'' = hasattr_type w (ClassT c) ''_varstr''"
    by (simp add: w1 hasattr_type_class_update_other)
  have "finalized w1 c"
    unfolding finalized_def h
    by (auto simp: w1 class_update_def)
  with ClassT show ?thesis by simp
qed (use assms in \<open>auto simp: finalize_def add_tostring_def and_then_def set_type_attr_def
       split: if_splits\<close>)

lemma arguments_of_receiver:
  "arguments_of constructor (receiver # args) = Inr arguments \<Longrightarrow>
     \<exists>rest. arguments = receiver # rest"
  by (auto simp: arguments_of_def split: if_splits option.splits)

lemma initialize_cases:
  "initialize constructor (receiver # args) w =
     (case arguments_of constructor (receiver # args) of
        Inl e \<Rightarrow> (Some e, w)
      | Inr arguments \<Rightarrow>
         (case add_arguments (f_annotations constructor) (Object w receiver)
                 (zip (tl (f_args constructor)) (tl arguments)) w of
            ((Some e, w'), self') \<Rightarrow> (Some e, w')
          | ((None, w'), self') \<Rightarrow> finalize self' w'))"
  by (auto simp: initialize_def split: sum.splits dest: arguments_of_receiver)

lemma initialize_establishes:
  assumes "initialize constructor (receiver # args) w = (None, w1)"
  shows "\<exists>c. type_of receiver = ClassT c \<and> finalized w1 c"
proof -
  from assms obtain arguments w' self' where
    loop: "add_arguments (f_annotations constructor) (Object w receiver)
             (zip (tl (f_args constructor)) (tl arguments)) w = ((None, w'), self')"
    and fin: "finalize self' w' = (None, w1)"
    by (auto simp: initialize_cases split: sum.splits prod.splits option.splits)
  have "obj_type self' = type_of receiver"
    using add_arguments_obj_type [of "f_annotations constructor" "Object w receiver"
        "zip (tl (f_args constructor)) (tl arguments)" w] loop
    by (simp add: Object_def)
  with finalize_establishes [OF fin] show ?thesis by simp
qed


lemma initialize_finalized_classes:
  assumes "finalized w c" "type_of receiver = ClassT c"
  shows "classes (snd (initialize constructor (receiver # args) w)) = classes w"
proof (cases "arguments_of constructor (receiver # args)")
  case (Inl e)
  then show ?thesis by (simp add: initialize_cases)
next
  case (Inr arguments)
  let ?self = "Object w receiver"
  let ?ps = "zip (tl (f_args constructor)) (tl arguments)"
  obtain r w' self' where
    loop: "add_arguments (f_annotations constructor) ?self ?ps w = ((r, w'), self')"
    by (metis surj_pair)
  have t: "obj_type ?self = ClassT c" using assms(2) by (simp add: Object_def)
  with assms(1) have "hasattr_type w (obj_type ?self) ''_initialized''"
    by (simp add: finalized_hasattr)
  from add_arguments_initialized_classes [OF this, of "f_annotations constructor" ?ps] loop t
  have c: "classes w' = classes w" and t': "obj_type self' = ClassT c" by simp_all
  show ?thesis
  proof (cases r)
    case None
    have "finalized w' c" using assms(1) c finalized_cong [of w' w] by simp
    from finalize_finalized [OF t' this] None loop Inr c show ?thesis
      by (simp add: initialize_cases)
  next
    case (Some e)
    with loop Inr c show ?thesis by (simp add: initialize_cases)
  qed
qed

subsection \<open>Which exceptions the steps raise\<close>

lemma set_type_attr_error:
  "fst (set_type_attr t k x w) = Some e \<Longrightarrow> e = TypeError"
  by (auto simp: set_type_attr_def split: pytype.splits)

lemma and_then_error:
  assumes "fst (and_then r f) = Some e"
  shows "fst r = Some e \<or> (\<exists>w1. fst (f w1) = Some e)"
  using assms
  by (cases r; cases "fst r") (auto simp: and_then_def)

lemma set_type_attrs_error:
  "fst (set_type_attrs t kvs w) = Some e \<Longrightarrow> e = TypeError"
proof (induction kvs arbitrary: w)
  case Nil
  then show ?case by simp
next
  case (Cons p kvs)
  obtain k x where p: "p = (k, x)" by (cases p)
  from Cons.prems p
  have "fst (and_then (set_type_attr t k x w) (set_type_attrs t kvs)) = Some e" by simp
  from and_then_error [OF this] show ?case
    using set_type_attr_error Cons.IH by blast
qed

lemma register_tostring_error:
  "fst (register_tostring self a w) = Some e \<Longrightarrow> e = TypeError \<or> e = AttributeError"
  by (auto simp: register_tostring_def dest: set_type_attr_error
      split: if_splits option.splits prod.splits cattr.splits pyval.splits)

lemma run_all_error:
  assumes "\<And>f w e. f \<in> set fs \<Longrightarrow> fst (f w) = Some e \<Longrightarrow> P e"
    and "fst (run_all fs w) = Some e"
  shows "P e"
  using assms
proof (induction fs arbitrary: w)
  case Nil
  then show ?case by simp
next
  case (Cons f fs)
  from Cons.prems(2) have "fst (and_then (f w) (run_all fs)) = Some e" by simp
  from and_then_error [OF this] show ?case
  proof
    assume "fst (f w) = Some e"
    then show ?thesis using Cons.prems(1) [of f w e] by simp
  next
    assume "\<exists>w1. fst (run_all fs w1) = Some e"
    then obtain w1 where w1: "fst (run_all fs w1) = Some e" by blast
    show ?thesis
    proof (rule Cons.IH)
      fix f' w' e'
      assume "f' \<in> set fs" "fst (f' w') = Some e'"
      then show "P e'" using Cons.prems(1) [of f' w' e'] by simp
    next
      show "fst (run_all fs w1) = Some e" by (fact w1)
    qed
  qed
qed

lemma install_error:
  assumes "fst (fst (install self a w)) = Some e"
  shows "e = TypeError \<or> e = AttributeError"
proof -
  let ?a1 = "if ''private'' \<in> arg_keywords a then set_private self a else a"
  let ?fs = "[when_do (''boolean'' \<in> arg_keywords ?a1) (add_tobool self ?a1),
             when_do (''number'' \<in> arg_keywords ?a1) (add_tonumber self ?a1),
             when_do (''string'' \<in> arg_keywords ?a1) (register_tostring self ?a1),
             when_do (''container'' \<in> arg_keywords ?a1) (add_container_methods self ?a1),
             when_do (''compare'' \<in> arg_keywords ?a1) (add_comparison_methods self ?a1)]"
  have steps: "e' = TypeError \<or> e' = AttributeError"
    if "f \<in> set ?fs" "fst (f w') = Some e'" for f w' e'
    using that
    by (auto simp: when_do_def add_tobool_def add_tonumber_def add_container_methods_def
          add_comparison_methods_def simp del: set_type_attrs.simps
        dest: set_type_attrs_error register_tostring_error split: if_splits)
  from assms have "fst (run_all ?fs w) = Some e"
    by (simp add: install_def Let_def)
  from run_all_error [of ?fs "\<lambda>e. e = TypeError \<or> e = AttributeError", OF steps this]
  show ?thesis .
qed

lemma setattr_obj_error:
  "fst (setattr_obj v k x w) = Some e \<Longrightarrow> e = AttributeError"
  by (auto simp: setattr_obj_def split: pyval.splits)

lemma add_argument_error:
  assumes "fst (fst (add_argument self a w)) = Some e"
  shows "fst (check_consistency self a) = Some e \<or> e = TypeError \<or> e = AttributeError"
proof (cases "check_consistency self a")
  case (Pair r self')
  show ?thesis
  proof (cases r)
    case (Some e')
    with Pair assms show ?thesis by (simp add: add_argument_def)
  next
    case None
    obtain r' a' where i: "(if \<not> hasattr_type w (obj_type self') ''_initialized''
        then install self' a w else ((None, w), a)) = (r', a')"
      by (metis surj_pair)
    from assms Pair None i
    have "fst (and_then r' (setattr_obj (obj self') (arg_name a') (arg_value a'))) = Some e"
      by (simp add: add_argument_def)
    from and_then_error [OF this] show ?thesis
    proof
      assume "fst r' = Some e"
      with i have "fst (fst (install self' a w)) = Some e"
        by (auto split: if_splits)
      from install_error [OF this] show ?thesis by simp
    next
      assume "\<exists>w1. fst (setattr_obj (obj self') (arg_name a') (arg_value a') w1) = Some e"
      then obtain w1 where "fst (setattr_obj (obj self') (arg_name a') (arg_value a') w1) = Some e"
        by blast
      from setattr_obj_error [OF this] show ?thesis by simp
    qed
  qed
qed

text \<open>\<open>consistent\<close> is the success of \<^verbatim>\<open>check_consistency\<close> on each field in turn.\<close>

lemma consistent_check_consistency:
  assumes "arg_keywords a = ks"
  shows "consistent (obj_keywords self) (ks # rest) \<longleftrightarrow>
           fst (check_consistency self a) = None \<and>
           consistent (obj_keywords (snd (check_consistency self a))) rest"
  using assms by (auto simp: check_consistency_cases)

lemma consistent_append:
  "consistent seen (xs @ ys) \<Longrightarrow> consistent seen xs"
  by (induction xs arbitrary: seen) auto

lemma add_arguments_consistent:
  assumes "consistent (obj_keywords self)
             (map (\<lambda>(n, v). parse_keywords (annotation_of anns n)) ps)"
  shows "fst (fst (add_arguments anns self ps w)) \<noteq> Some (AnnotationError msg)"
  using assms
proof (induction ps arbitrary: self w)
  case Nil
  then show ?case by simp
next
  case (Cons p ps)
  obtain n v where p: "p = (n, v)" by (cases p)
  let ?ks = "parse_keywords (annotation_of anns n)"
  from Cons.prems p have ok: "\<not> (''local'' \<in> ?ks \<and> ?ks \<inter> set local_incompatible \<noteq> {})"
      "?ks \<inter> set uniques \<inter> obj_keywords self = {}"
    and rest: "consistent (obj_keywords self \<union> ?ks)
                 (map (\<lambda>(n, v). parse_keywords (annotation_of anns n)) ps)"
    by simp_all
  show ?case
  proof (cases "Argument w n v (annotation_of anns n)")
    case (Inl e)
    then show ?thesis using p by (auto simp: Argument_cases split: if_splits)
  next
    case (Inr a)
    have ks: "arg_keywords a = ?ks" using Argument_keywords [OF Inr] .
    with ok have chk: "check_consistency self a
        = (None, self\<lparr>obj_keywords := obj_keywords self \<union> ?ks\<rparr>)"
      by (simp add: check_consistency_cases)
    obtain r w' self' where step: "add_argument self a w = ((r, w'), self')"
      by (metis surj_pair)
    have self': "self' = self\<lparr>obj_keywords := obj_keywords self \<union> ?ks\<rparr>"
      using add_argument_object [of self a w] step chk by simp
    show ?thesis
    proof (cases r)
      case None
      from rest self' have "consistent (obj_keywords self')
          (map (\<lambda>(n, v). parse_keywords (annotation_of anns n)) ps)" by simp
      from Cons.IH [OF this, of w'] None step Inr p show ?thesis by simp
    next
      case (Some e)
      with step have "fst (fst (add_argument self a w)) = Some e" by simp
      from add_argument_error [OF this] chk have "e = TypeError \<or> e = AttributeError" by simp
      with Some step Inr p show ?thesis by auto
    qed
  qed
qed

lemma finalize_error:
  "fst (finalize self w) = Some e \<Longrightarrow> e = TypeError"
proof -
  assume "fst (finalize self w) = Some e"
  then have "fst (and_then (add_tostring self w)
      (set_type_attr (obj_type self) ''_initialized'' (Attr (VBool True)))) = Some e"
    by (simp add: finalize_def)
  from and_then_error [OF this] show ?thesis
    by (auto simp: add_tostring_def dest: set_type_attr_error split: if_splits)
qed


lemma arguments_of_error:
  "arguments_of constructor args = Inl e \<Longrightarrow> e = TypeError"
  by (auto simp: arguments_of_def split: if_splits option.splits)

lemma zip_keywords_consistent:
  assumes "well_declared constructor"
  shows "consistent {}
           (map (\<lambda>(n, v). parse_keywords (annotation_of (f_annotations constructor) n))
              (zip (tl (f_args constructor)) rest))"
proof -
  let ?kw = "\<lambda>n. parse_keywords (annotation_of (f_annotations constructor) n)"
  let ?m = "min (length (tl (f_args constructor))) (length rest)"
  have "map (\<lambda>(n, v). ?kw n) (zip (tl (f_args constructor)) rest)
          = map ?kw (map fst (zip (tl (f_args constructor)) rest))"
    by (simp add: case_prod_unfold)
  also have "\<dots> = take ?m (declared_keywords constructor)"
    by (simp add: map_fst_zip_take declared_keywords_def take_map)
  finally have eq: "map (\<lambda>(n, v). ?kw n) (zip (tl (f_args constructor)) rest)
          = take ?m (declared_keywords constructor)" .
  from assms have "consistent {} (take ?m (declared_keywords constructor)
      @ drop ?m (declared_keywords constructor))"
    by (simp add: well_declared_def)
  then have "consistent {} (take ?m (declared_keywords constructor))"
    by (rule consistent_append)
  with eq show ?thesis by simp
qed

lemma initialize_well_declared:
  assumes "well_declared constructor"
  shows "fst (initialize constructor args w) \<noteq> Some (AnnotationError msg)"
proof (cases "arguments_of constructor args")
  case (Inl e)
  with arguments_of_error [OF Inl] show ?thesis by (simp add: initialize_def)
next
  case (Inr arguments)
  show ?thesis
  proof (cases arguments)
    case Nil
    with Inr show ?thesis by (simp add: initialize_def)
  next
    case (Cons receiver rest)
    let ?ps = "zip (tl (f_args constructor)) rest"
    obtain r w' self' where
      loop: "add_arguments (f_annotations constructor) (Object w receiver) ?ps w
               = ((r, w'), self')"
      by (metis surj_pair)
    have "consistent (obj_keywords (Object w receiver))
            (map (\<lambda>(n, v). parse_keywords (annotation_of (f_annotations constructor) n)) ?ps)"
      using zip_keywords_consistent [OF assms] by (simp add: Object_def)
    from add_arguments_consistent [OF this, of w msg] loop
    have r: "r \<noteq> Some (AnnotationError msg)" by simp
    show ?thesis
    proof (cases r)
      case None
      have "fst (finalize self' w') \<noteq> Some (AnnotationError msg)"
        using finalize_error [of self' w'] by auto
      with None loop Inr Cons show ?thesis by (simp add: initialize_def)
    next
      case (Some e)
      with r loop Inr Cons show ?thesis by (simp add: initialize_def)
    qed
  qed
qed

text \<open>
  Claim C6. Let the declaration of the constructor be without keyword conflict, and let a
  first construction have run the initialization to its end (the first instance is made
  and the type is marked initialized). Then, from any later state with the same class
  table (the heap may have changed), the initialization for a second instance of the
  same type, with any arguments, leaves the class table as the first construction left
  it, whether it completes or raises, and raises no \<^verbatim>\<open>AnnotationError\<close>. The same holds
  for the whole call of the wrapper when the body of the constructor does not touch the
  class table and raises no \<^verbatim>\<open>AnnotationError\<close> itself.
\<close>

theorem second_construction_installs_nothing:
  assumes "well_declared constructor"
    and "initialize constructor (receiver1 # args1) w = (None, w1)"
    and "classes w1' = classes w1"
    and "type_of receiver2 = type_of receiver1"
  shows "hasattr_type w1 (type_of receiver1) ''_initialized'' \<and>
         classes (snd (initialize constructor (receiver2 # args2) w1')) = classes w1 \<and>
         (\<forall>msg. fst (initialize constructor (receiver2 # args2) w1')
                  \<noteq> Some (AnnotationError msg)) \<and>
         ((\<forall>w a k. classes (snd (f_call constructor w a k)) = classes w) \<and>
          (\<forall>w a k msg. fst (f_call constructor w a k) \<noteq> Inl (AnnotationError msg))
          \<longrightarrow> classes (snd (init constructor w1' (receiver2 # args2) kwargs)) = classes w1 \<and>
              (\<forall>msg. fst (init constructor w1' (receiver2 # args2) kwargs)
                       \<noteq> Inl (AnnotationError msg)))"
proof -
  from initialize_establishes [OF assms(2)] obtain c where
    c: "type_of receiver1 = ClassT c" "finalized w1 c" by blast
  have fin': "finalized w1' c" using c(2) assms(3) finalized_cong [of w1' w1] by simp
  have t2: "type_of receiver2 = ClassT c" using c(1) assms(4) by simp
  have 1: "hasattr_type w1 (type_of receiver1) ''_initialized''"
    using c by (simp add: finalized_hasattr)
  have 2: "classes (snd (initialize constructor (receiver2 # args2) w1')) = classes w1"
    using initialize_finalized_classes [OF fin' t2] assms(3) by simp
  have 3: "fst (initialize constructor (receiver2 # args2) w1') \<noteq> Some (AnnotationError msg)"
    for msg
    using initialize_well_declared [OF assms(1)] .
  have 4: "classes (snd (init constructor w1' (receiver2 # args2) kwargs)) = classes w1 \<and>
           (\<forall>msg. fst (init constructor w1' (receiver2 # args2) kwargs)
                    \<noteq> Inl (AnnotationError msg))"
    if body: "\<forall>w a k. classes (snd (f_call constructor w a k)) = classes w"
       "\<forall>w a k msg. fst (f_call constructor w a k) \<noteq> Inl (AnnotationError msg)"
  proof (cases "enabled w1'")
    case False
    with body assms(3) show ?thesis by (simp add: init_def)
  next
    case True
    obtain r w2 where i: "initialize constructor (receiver2 # args2) w1' = (r, w2)"
      by (metis surj_pair)
    with 2 3 have w2: "classes w2 = classes w1" "\<And>msg. r \<noteq> Some (AnnotationError msg)"
      by auto
    show ?thesis
    proof (cases r)
      case None
      with True i w2 body show ?thesis by (simp add: init_def)
    next
      case (Some e)
      with True i w2 show ?thesis by (auto simp: init_def)
    qed
  qed
  from 1 2 3 4 show ?thesis by blast
qed

text \<open>
  For \<^verbatim>\<open>def __init__(self, a: (int, 'boolean'), b: 'string')\<close>: \<^verbatim>\<open>Foo(0, "n")\<close> installs
  the methods (\<^verbatim>\<open>_varbool\<close> is \<^verbatim>\<open>a\<close>), and \<^verbatim>\<open>Foo(5, "m")\<close> afterwards completes and
  leaves the class table as it was.
\<close>

theorem second_construction_installs_nothing_witness:
  "well_declared Foo_counted \<and>
   initialize Foo_counted [VObj 0 0, VInt 0, VStr ''n''] w0
     = (None, snd (initialize Foo_counted [VObj 0 0, VInt 0, VStr ''n''] w0)) \<and>
   type_of (VObj 0 1) = type_of (VObj 0 0) \<and>
   cdict (classes (snd (initialize Foo_counted [VObj 0 0, VInt 0, VStr ''n''] w0)) 0) ''_varbool''
     = Some (Attr (VStr ''a'')) \<and>
   classes (snd (initialize Foo_counted [VObj 0 1, VInt 5, VStr ''m'']
                   (snd (initialize Foo_counted [VObj 0 0, VInt 0, VStr ''n''] w0))))
     = classes (snd (initialize Foo_counted [VObj 0 0, VInt 0, VStr ''n''] w0)) \<and>
   fst (initialize Foo_counted [VObj 0 1, VInt 5, VStr ''m'']
          (snd (initialize Foo_counted [VObj 0 0, VInt 0, VStr ''n''] w0))) = None"
proof -
  have wd: "well_declared Foo_counted"
    by (simp add: well_declared_def declared_keywords_def Foo_counted_def init_eval)
  have first: "initialize Foo_counted [VObj 0 0, VInt 0, VStr ''n''] w0
     = (None, snd (initialize Foo_counted [VObj 0 0, VInt 0, VStr ''n''] w0))"
    by (simp add: Foo_counted_def init_eval)
  have snd: "fst (initialize Foo_counted [VObj 0 1, VInt 5, VStr ''m'']
          (snd (initialize Foo_counted [VObj 0 0, VInt 0, VStr ''n''] w0))) = None"
    by (simp add: Foo_counted_def init_eval)
  have vb: "cdict (classes (snd (initialize Foo_counted [VObj 0 0, VInt 0, VStr ''n''] w0)) 0)
      ''_varbool'' = Some (Attr (VStr ''a''))"
    by (simp add: Foo_counted_def init_eval)
  from second_construction_installs_nothing [OF wd first refl, of "VObj 0 1" "[VInt 5, VStr ''m'']"]
    wd first snd vb
  show ?thesis by simp
qed


subsection \<open>Effects on the heap\<close>

text \<open>What the installation steps keep: the heap, and whether a type is marked initialized.\<close>

lemma snd_and_then:
  "snd (and_then r f) = (if fst r = None then snd (f (snd r)) else snd r)"
  by (cases r; cases "fst r") (auto simp: and_then_def)

lemma fst_and_then:
  "fst (and_then r f) = (if fst r = None then fst (f (snd r)) else fst r)"
  by (cases r; cases "fst r") (auto simp: and_then_def)

lemma class_update_keeps:
  "k \<noteq> ''_initialized'' \<Longrightarrow>
     heap (class_update w c k x) = heap w \<and>
     hasattr_type (class_update w c k x) t ''_initialized'' = hasattr_type w t ''_initialized''"
  by (simp add: hasattr_type_class_update_other) (simp add: class_update_def)

lemma set_type_attr_keeps:
  "k \<noteq> ''_initialized'' \<Longrightarrow>
     heap (snd (set_type_attr u k x w)) = heap w \<and>
     hasattr_type (snd (set_type_attr u k x w)) t ''_initialized''
       = hasattr_type w t ''_initialized''"
  by (cases u) (simp_all add: set_type_attr_def class_update_keeps)

lemma set_type_attrs_keeps:
  "''_initialized'' \<notin> fst ` set kvs \<Longrightarrow>
     heap (snd (set_type_attrs u kvs w)) = heap w \<and>
     hasattr_type (snd (set_type_attrs u kvs w)) t ''_initialized''
       = hasattr_type w t ''_initialized''"
proof (induction kvs arbitrary: w)
  case Nil
  then show ?case by simp
next
  case (Cons p kvs)
  obtain k x where p: "p = (k, x)" by (cases p)
  with Cons.prems have k: "k \<noteq> ''_initialized''" and
    rest: "''_initialized'' \<notin> fst ` set kvs" by auto
  show ?case
    using set_type_attr_keeps [OF k, of u x w t] Cons.IH [OF rest]
    by (simp add: p snd_and_then)
qed

lemma register_tostring_keeps:
  "heap (snd (register_tostring self a w)) = heap w \<and>
   hasattr_type (snd (register_tostring self a w)) t ''_initialized''
     = hasattr_type w t ''_initialized''"
  by (auto simp: register_tostring_def set_type_attr_keeps class_update_keeps
      split: option.splits prod.splits cattr.splits pyval.splits)

lemma add_methods_keep:
  "heap (snd (add_tobool self a w)) = heap w \<and>
   hasattr_type (snd (add_tobool self a w)) t ''_initialized'' = hasattr_type w t ''_initialized''"
  "heap (snd (add_tonumber self a w)) = heap w \<and>
   hasattr_type (snd (add_tonumber self a w)) t ''_initialized'' = hasattr_type w t ''_initialized''"
  "heap (snd (add_container_methods self a w)) = heap w \<and>
   hasattr_type (snd (add_container_methods self a w)) t ''_initialized''
     = hasattr_type w t ''_initialized''"
  "heap (snd (add_comparison_methods self a w)) = heap w \<and>
   hasattr_type (snd (add_comparison_methods self a w)) t ''_initialized''
     = hasattr_type w t ''_initialized''"
  unfolding add_tobool_def add_tonumber_def add_container_methods_def add_comparison_methods_def
  by (rule set_type_attrs_keeps, simp)+

lemma when_do_keeps:
  assumes "\<And>w. heap (snd (f w)) = heap w \<and>
             hasattr_type (snd (f w)) t ''_initialized'' = hasattr_type w t ''_initialized''"
  shows "heap (snd (when_do b f w)) = heap w \<and>
         hasattr_type (snd (when_do b f w)) t ''_initialized'' = hasattr_type w t ''_initialized''"
  using assms by (simp add: when_do_def)

lemma hasattr_type_heap_update [simp]:
  "hasattr_type (w\<lparr>heap := h\<rparr>) t k = hasattr_type w t k"
  by (rule hasattr_type_cong) simp

lemma run_all_keeps:
  assumes "\<And>f w. f \<in> set fs \<Longrightarrow>
             heap (snd (f w)) = heap w \<and>
             hasattr_type (snd (f w)) t ''_initialized'' = hasattr_type w t ''_initialized''"
  shows "heap (snd (run_all fs w)) = heap w \<and>
         hasattr_type (snd (run_all fs w)) t ''_initialized'' = hasattr_type w t ''_initialized''"
  using assms
proof (induction fs arbitrary: w)
  case Nil
  then show ?case by simp
next
  case (Cons f fs)
  have f: "heap (snd (f w)) = heap w \<and>
           hasattr_type (snd (f w)) t ''_initialized'' = hasattr_type w t ''_initialized''"
    using Cons.prems [of f w] by simp
  have "heap (snd (run_all fs w')) = heap w' \<and>
        hasattr_type (snd (run_all fs w')) t ''_initialized''
          = hasattr_type w' t ''_initialized''" for w'
    using Cons.IH [of w'] Cons.prems by simp
  with f show ?case by (simp add: snd_and_then)
qed

lemma install_keeps:
  "heap (snd (fst (install self a w))) = heap w \<and>
   hasattr_type (snd (fst (install self a w))) t ''_initialized''
     = hasattr_type w t ''_initialized''"
proof -
  let ?a1 = "if ''private'' \<in> arg_keywords a then set_private self a else a"
  let ?fs = "[when_do (''boolean'' \<in> arg_keywords ?a1) (add_tobool self ?a1),
             when_do (''number'' \<in> arg_keywords ?a1) (add_tonumber self ?a1),
             when_do (''string'' \<in> arg_keywords ?a1) (register_tostring self ?a1),
             when_do (''container'' \<in> arg_keywords ?a1) (add_container_methods self ?a1),
             when_do (''compare'' \<in> arg_keywords ?a1) (add_comparison_methods self ?a1)]"
  have steps: "heap (snd (f w')) = heap w' \<and>
      hasattr_type (snd (f w')) t ''_initialized'' = hasattr_type w' t ''_initialized''"
    if "f \<in> set ?fs" for f w'
    using that when_do_keeps add_methods_keep register_tostring_keeps
    by (auto simp del: set_type_attrs.simps)
  have "heap (snd (run_all ?fs w)) = heap w \<and>
        hasattr_type (snd (run_all ?fs w)) t ''_initialized'' = hasattr_type w t ''_initialized''"
    by (rule run_all_keeps) (rule steps)
  then show ?thesis
    by (simp add: install_def Let_def)
qed

lemma install_argument:
  "snd (install self a w) = (if ''private'' \<in> arg_keywords a then set_private self a else a)"
  by (simp add: install_def Let_def)

lemma add_argument_heap:
  assumes "add_argument self a w = ((None, w'), self')" "obj self = VObj c r"
  shows "heap w' = (heap w)(r := (heap w r)
           ((if \<not> hasattr_type w (obj_type self) ''_initialized'' \<and> ''private'' \<in> arg_keywords a
             then ''_'' @ obj_name self @ ''__'' @ arg_name a else arg_name a)
            \<mapsto> arg_value a)) \<and>
         hasattr_type w' t ''_initialized'' = hasattr_type w t ''_initialized''"
proof -
  from add_argument_passes_check [OF assms(1)] have chk: "check_consistency self a = (None, self')" .
  then have o: "obj self' = obj self" "obj_type self' = obj_type self" "obj_name self' = obj_name self"
    using check_consistency_obj_type [of self a] by simp_all
  show ?thesis
  proof (cases "hasattr_type w (obj_type self) ''_initialized''")
    case True
    with assms chk o show ?thesis
      by (auto simp: add_argument_def and_then_def setattr_obj_def)
  next
    case False
    obtain r1 w1 where i: "fst (install self' a w) = (r1, w1)" by (metis surj_pair)
    have k: "heap w1 = heap w"
      "hasattr_type w1 t ''_initialized'' = hasattr_type w t ''_initialized''"
      using install_keeps [of self' a w t] i by simp_all
    from assms False chk o i
    have "and_then (r1, w1) (setattr_obj (VObj c r) (arg_name (snd (install self' a w))) (arg_value (snd (install self' a w)))) = (None, w')"
      by (simp add: add_argument_def case_prod_unfold Let_def)
    then have "r1 = None" and
      w': "w' = w1\<lparr>heap := (heap w1)(r := (heap w1 r)(arg_name (snd (install self' a w)) \<mapsto> arg_value (snd (install self' a w))))\<rparr>"
      by (cases r1; auto simp: and_then_def setattr_obj_def)+
    have h: "hasattr_type w' t ''_initialized'' = hasattr_type w1 t ''_initialized''"
      by (rule hasattr_type_cong) (simp add: w')
    from False k h o show ?thesis
      by (simp add: w' install_argument set_private_def)
  qed
qed


lemma add_arguments_heap:
  assumes "add_arguments anns self pre w = ((None, w1), self1)" "obj self = VObj c r"
  shows "heap w1 = (heap w)(r :=
           fold (assign_field (field_name anns (hasattr_type w (obj_type self) ''_initialized'')
                                 (obj_name self))) pre (heap w r))"
  using assms
proof (induction pre arbitrary: self w)
  case Nil
  then show ?case by simp
next
  case (Cons p pre)
  obtain n v where p: "p = (n, v)" by (cases p)
  let ?g = "field_name anns (hasattr_type w (obj_type self) ''_initialized'') (obj_name self)"
  from Cons.prems(1) p obtain a w' self' where
    a: "Argument w n v (annotation_of anns n) = Inr a"
    and step: "add_argument self a w = ((None, w'), self')"
    and rest: "add_arguments anns self' pre w' = ((None, w1), self1)"
    by (auto split: sum.splits prod.splits option.splits)
  have o: "obj self' = VObj c r" "obj_type self' = obj_type self" "obj_name self' = obj_name self"
    using add_argument_obj_type [of self a w] step Cons.prems(2) by simp_all
  from Argument_fields [OF a] have fields: "arg_name a = n" "arg_value a = v"
    "arg_keywords a = parse_keywords (annotation_of anns n)" by simp_all
  from add_argument_heap [OF step Cons.prems(2), of "obj_type self"]
  have h: "heap w' = (heap w)(r := assign_field ?g (n, v) (heap w r))"
    and i: "hasattr_type w' (obj_type self) ''_initialized''
              = hasattr_type w (obj_type self) ''_initialized''"
    by (simp_all add: fields field_name_def assign_field_def)
  from Cons.IH [OF rest o(1)]
  have "heap w1 = (heap w')(r := fold (assign_field ?g) pre (heap w' r))"
    unfolding o(2,3) i .
  also have "\<dots> = (heap w)(r := fold (assign_field ?g) pre (assign_field ?g (n, v) (heap w r)))"
    unfolding h by simp
  also have "\<dots> = (heap w)(r := fold (assign_field ?g) (p # pre) (heap w r))"
    unfolding p by simp
  finally show ?case .
qed

lemma fold_assign_other:
  "k \<notin> g ` fst ` set ps \<Longrightarrow> fold (assign_field g) ps m k = m k"
  by (induction ps arbitrary: m) (auto simp: assign_field_def)

lemma fold_assign_distinct:
  "(n, x) \<in> set ps \<Longrightarrow> distinct (map (\<lambda>p. g (fst p)) ps) \<Longrightarrow>
     fold (assign_field g) ps m (g n) = Some x"
proof (induction ps arbitrary: m)
  case Nil
  then show ?case by simp
next
  case (Cons p ps)
  show ?case
  proof (cases "(n, x) \<in> set ps")
    case True
    with Cons show ?thesis by simp
  next
    case False
    with Cons.prems have p: "p = (n, x)" by auto
    from Cons.prems(2) p have other: "g n \<notin> g ` fst ` set ps" by (auto simp: image_image)
    have "fold (assign_field g) (p # ps) m (g n)
            = fold (assign_field g) ps (assign_field g p m) (g n)"
      by simp
    also have "\<dots> = assign_field g p m (g n)"
      by (rule fold_assign_other) (fact other)
    also have "\<dots> = Some x"
      unfolding p assign_field_def by simp
    finally show ?thesis .
  qed
qed

subsection \<open>A construction that fails partway\<close>

lemma init_error_in_loop:
  assumes "enabled w" "arguments_of constructor args = Inr (receiver # rest)"
    and "add_arguments (f_annotations constructor) (Object w receiver)
           (zip (tl (f_args constructor)) rest) w = ((Some e, w1), self1)"
  shows "init constructor w args kwargs = (Inl e, w1)"
  using assms by (simp add: init_def initialize_def)

text \<open>
  Claim C9. With the toggle on, let the fields before field \<open>k\<close> have been processed
  without exception, reaching the state \<open>w1\<close>, and let field \<open>k\<close> raise: its
  \<^verbatim>\<open>Argument\<close> is rejected (\<^verbatim>\<open>ArgumentTypeError\<close>) or its keywords are
  (\<^verbatim>\<open>AnnotationError\<close>). Then the call of the wrapper raises that exception and ends in the
  state \<open>w1\<close>: the constructor body is not run and nothing is undone. In \<open>w1\<close> the
  attributes of the instance are those before the call with the assignments of the
  fields before \<open>k\<close> made in order; so each of these fields still holds its value,
  provided no later one of them was attached under the same name.
\<close>

theorem failed_construction_keeps_assigned_fields:
  assumes "enabled w"
    and "arguments_of constructor args = Inr (receiver # rest)"
    and "zip (tl (f_args constructor)) rest = pre @ (name, v) # post"
    and "add_arguments (f_annotations constructor) (Object w receiver) pre w
           = ((None, w1), self1)"
    and "Argument w1 name v (annotation_of (f_annotations constructor) name) = Inl e \<or>
         (\<exists>a. Argument w1 name v (annotation_of (f_annotations constructor) name) = Inr a \<and>
              fst (check_consistency self1 a) = Some e)"
  shows "init constructor w args kwargs = (Inl e, w1) \<and>
         ((\<exists>ts t. e = ArgumentTypeError ''__init__'' name ts t) \<or>
          (\<exists>msg. e = AnnotationError msg)) \<and>
         (\<forall>c r. receiver = VObj c r \<longrightarrow>
            heap w1 = (heap w)(r :=
              fold (assign_field (attach_name (f_annotations constructor) w receiver))
                pre (heap w r))) \<and>
         (\<forall>c r n x. receiver = VObj c r \<and> (n, x) \<in> set pre \<and>
            distinct (map (\<lambda>p. attach_name (f_annotations constructor) w receiver (fst p)) pre)
            \<longrightarrow> heap w1 r (attach_name (f_annotations constructor) w receiver n) = Some x)"
proof -
  let ?anns = "f_annotations constructor"
  have step: "add_arguments ?anns self1 ((name, v) # post) w1 = ((Some e, w1), self1)"
    using assms(5)
  proof
    assume "Argument w1 name v (annotation_of ?anns name) = Inl e"
    then show ?thesis by simp
  next
    assume "\<exists>a. Argument w1 name v (annotation_of ?anns name) = Inr a \<and>
              fst (check_consistency self1 a) = Some e"
    then obtain a where a: "Argument w1 name v (annotation_of ?anns name) = Inr a"
      and "fst (check_consistency self1 a) = Some e" by blast
    then obtain self' where "check_consistency self1 a = (Some e, self')"
      by (metis prod.collapse)
    from add_argument_check_raises [OF this] a show ?thesis by simp
  qed
  have "add_arguments ?anns (Object w receiver) (zip (tl (f_args constructor)) rest) w
          = ((Some e, w1), self1)"
    using assms(3,4) step by (simp add: add_arguments_append)
  from init_error_in_loop [OF assms(1,2) this]
  have 1: "init constructor w args kwargs = (Inl e, w1)" .
  have 2: "(\<exists>ts t. e = ArgumentTypeError ''__init__'' name ts t) \<or>
           (\<exists>msg. e = AnnotationError msg)"
    using assms(5)
    by (auto simp: Argument_cases check_consistency_cases split: if_splits)
  have 3: "heap w1 = (heap w)(r :=
              fold (assign_field (attach_name ?anns w receiver)) pre (heap w r))"
    if "receiver = VObj c r" for c r
  proof -
    have "attach_name ?anns w receiver
            = field_name ?anns (hasattr_type w (obj_type (Object w receiver)) ''_initialized'')
                (obj_name (Object w receiver))"
      by (rule ext) (simp add: attach_name_def Object_def)
    with add_arguments_heap [OF assms(4), of c r] that show ?thesis
      by (simp add: Object_def)
  qed
  have 4: "heap w1 r (attach_name ?anns w receiver n) = Some x"
    if "receiver = VObj c r" "(n, x) \<in> set pre"
       "distinct (map (\<lambda>p. attach_name ?anns w receiver (fst p)) pre)" for c r n x
    using 3 [OF that(1)] fold_assign_distinct [OF that(2,3)] by simp
  from 1 2 3 4 show ?thesis by blast
qed

text \<open>
  For \<^verbatim>\<open>def __init__(self, a: int, b: int)\<close>, the call \<^verbatim>\<open>Foo(1, "x")\<close> raises
  \<^verbatim>\<open>ArgumentTypeError\<close> for \<^verbatim>\<open>b\<close>, and the instance keeps the attribute \<^verbatim>\<open>a\<close>.
\<close>

theorem failed_construction_keeps_assigned_fields_witness:
  "enabled w0 \<and>
   init (Foo_init (AOne (AType IntT)) (AOne (AType IntT))) w0 [VObj 0 0, VInt 1, VStr ''x''] []
     = (Inl (ArgumentTypeError ''__init__'' ''b'' [IntT] StrT),
        snd (init (Foo_init (AOne (AType IntT)) (AOne (AType IntT))) w0
               [VObj 0 0, VInt 1, VStr ''x''] [])) \<and>
   heap (snd (init (Foo_init (AOne (AType IntT)) (AOne (AType IntT))) w0
                [VObj 0 0, VInt 1, VStr ''x''] [])) 0 ''a'' = Some (VInt 1) \<and>
   heap (snd (init (Foo_init (AOne (AType IntT)) (AOne (AType IntT))) w0
                [VObj 0 0, VInt 1, VStr ''x''] [])) 0 ''b'' = None"
proof -
  let ?ctor = "Foo_init (AOne (AType IntT)) (AOne (AType IntT))"
  let ?w1 = "w0\<lparr>heap := (heap w0)(0 := [''a'' \<mapsto> VInt 1])\<rparr>"
  have e: "enabled w0" by (simp add: w0_def)
  have args: "arguments_of ?ctor [VObj 0 0, VInt 1, VStr ''x'']
                = Inr (VObj 0 0 # [VInt 1, VStr ''x''])"
    by (simp add: init_eval)
  have z: "zip (tl (f_args ?ctor)) [VInt 1, VStr ''x''] = [(''a'', VInt 1)] @ (''b'', VStr ''x'') # []"
    by (simp add: init_eval)
  have pre: "add_arguments (f_annotations ?ctor) (Object w0 (VObj 0 0)) [(''a'', VInt 1)] w0
               = ((None, ?w1), Object w0 (VObj 0 0))"
    by (simp add: init_eval)
  have fail: "Argument ?w1 ''b'' (VStr ''x'') (annotation_of (f_annotations ?ctor) ''b'')
                = Inl (ArgumentTypeError ''__init__'' ''b'' [IntT] StrT)"
    by (simp add: init_eval)
  from failed_construction_keeps_assigned_fields [OF e args z pre disjI1 [OF fail], of "[]"]
  have "init ?ctor w0 [VObj 0 0, VInt 1, VStr ''x''] []
          = (Inl (ArgumentTypeError ''__init__'' ''b'' [IntT] StrT), ?w1)"
    by simp
  with e show ?thesis by simp
qed

end
